theory Spec2Isabelle
  imports Complex_Main "HOL-Library.Multiset"
begin

section \<open>Portfolio tracker: ledger, forex aggregation and alerts\<close>

text \<open>
  A shallow embedding of \<^verbatim>\<open>portfolio_tracker.py\<close>. Python floats are read as real
  numbers (exact arithmetic, no rounding, no NaN or infinity); every statement below is
  about that reading. The SQLAlchemy session is a record of its tables, each table a list
  of rows; a query is a \<open>filter\<close> over the table.
\<close>

subsection \<open>Tables\<close>

record user =
  user_id :: int
  username :: string
  email :: string

record symbol =
  symbol_id :: int
  name :: string
  symbol_type :: string

text \<open>\<open>quantity > 0\<close> is a buy, \<open>quantity < 0\<close> a sell; \<open>price\<close> is per unit.\<close>

record transaction =
  tx_id :: int
  tx_user_id :: int
  tx_symbol_id :: int
  quantity :: real
  price :: real
  timestamp :: nat

text \<open>Both thresholds are nullable columns: \<open>None\<close> is SQL NULL.\<close>

record alert =
  alert_id :: int
  alert_user_id :: int
  alert_symbol_id :: int
  upper_threshold :: "real option"
  lower_threshold :: "real option"
  active :: bool

record session =
  users :: "user list"
  symbols :: "symbol list"
  transactions :: "transaction list"
  alerts :: "alert list"

subsection \<open>Cost basis and holdings\<close>

text \<open>
  The \<^verbatim>\<open>for t in txs\<close> loop of \<^verbatim>\<open>calculate_average_cost_basis\<close>, with the two
  accumulators \<^verbatim>\<open>total_cost\<close> and \<^verbatim>\<open>total_quantity\<close> passed along.
\<close>

fun cost_basis_loop :: "transaction list \<Rightarrow> real \<times> real \<Rightarrow> real \<times> real" where
  "cost_basis_loop [] acc = acc"
| "cost_basis_loop (t # txs) (total_cost, total_quantity) =
     (if quantity t > 0
      then cost_basis_loop txs (total_cost + quantity t * price t, total_quantity + quantity t)
      else cost_basis_loop txs (total_cost, total_quantity))"

definition calculate_average_cost_basis :: "session \<Rightarrow> int \<Rightarrow> int \<Rightarrow> real" where
  "calculate_average_cost_basis s uid sid =
     (let txs = filter (\<lambda>t. tx_user_id t = uid \<and> tx_symbol_id t = sid) (transactions s) in
      case cost_basis_loop txs (0, 0) of
        (total_cost, total_quantity) \<Rightarrow>
          if total_quantity > 0 then total_cost / total_quantity else 0)"

text \<open>
  \<^verbatim>\<open>get_current_holdings\<close>: the rows of the join of symbols and transactions on the
  symbol id, restricted to the user, then \<^verbatim>\<open>GROUP BY Symbol.name\<close> with
  \<^verbatim>\<open>SUM(quantity)\<close>, collected into a dict.
\<close>

definition holdings_rows :: "session \<Rightarrow> int \<Rightarrow> (string \<times> real) list" where
  "holdings_rows s uid =
     concat (map (\<lambda>t. map (\<lambda>y. (name y, quantity t))
                        (filter (\<lambda>y. symbol_id y = tx_symbol_id t) (symbols s)))
                 (filter (\<lambda>t. tx_user_id t = uid) (transactions s)))"

fun group_sum :: "(string \<times> real) list \<Rightarrow> (string \<rightharpoonup> real) \<Rightarrow> (string \<rightharpoonup> real)" where
  "group_sum [] m = m"
| "group_sum ((n, q) # rows) m =
     group_sum rows (m(n \<mapsto> (case m n of None \<Rightarrow> q | Some a \<Rightarrow> a + q)))"

definition get_current_holdings :: "session \<Rightarrow> int \<Rightarrow> (string \<rightharpoonup> real)" where
  "get_current_holdings s uid = group_sum (holdings_rows s uid) Map.empty"

text \<open>The acquisitions of a user in a symbol: the rows the loop adds up.\<close>

definition acquisitions :: "session \<Rightarrow> int \<Rightarrow> int \<Rightarrow> transaction list" where
  "acquisitions s uid sid =
     filter (\<lambda>t. quantity t > 0)
       (filter (\<lambda>t. tx_user_id t = uid \<and> tx_symbol_id t = sid) (transactions s))"

text \<open>Scenario 1 of the specification: buy 10 at 120, then sell 4 at 150.\<close>

definition scenario1 :: session where
  "scenario1 =
     \<lparr>users = [\<lparr>user_id = 1, username = ''demo'', email = ''demo@example.com''\<rparr>],
      symbols = [\<lparr>symbol_id = 1, name = ''AAPL'', symbol_type = ''stock''\<rparr>,
                 \<lparr>symbol_id = 2, name = ''bitcoin'', symbol_type = ''crypto''\<rparr>],
      transactions =
        [\<lparr>tx_id = 1, tx_user_id = 1, tx_symbol_id = 1, quantity = 10, price = 120, timestamp = 0\<rparr>,
         \<lparr>tx_id = 2, tx_user_id = 1, tx_symbol_id = 1, quantity = - 4, price = 150, timestamp = 1\<rparr>],
      alerts = []\<rparr>"

subsection \<open>Python values and exceptions\<close>

text \<open>
  What \<^verbatim>\<open>r.json()\<close> can return: \<^verbatim>\<open>None\<close>, a bool, a number, a string, a list or a
  dict with string keys (an association list; the first binding of a key is the dict's).
\<close>

datatype pyval =
    PyNone
  | PyBool bool
  | PyNum real
  | PyStr string
  | PyList "pyval list"
  | PyDict "(string \<times> pyval) list"

datatype py_error =
    KeyError
  | TypeError
  | AttributeError
  | ZeroDivisionError
  | RequestException
  | JSONDecodeError
  | SMTPException

text \<open>Sequencing of steps that may raise: the first exception ends the computation.\<close>

definition and_then :: "py_error + 'a \<Rightarrow> ('a \<Rightarrow> py_error + 'b) \<Rightarrow> py_error + 'b" where
  "and_then r f = (case r of Inl e \<Rightarrow> Inl e | Inr v \<Rightarrow> f v)"

text \<open>\<^verbatim>\<open>p in s\<close> on strings is the substring test; \<^verbatim>\<open>s.endswith(p)\<close>.\<close>

fun startswith :: "string \<Rightarrow> string \<Rightarrow> bool" where
  "startswith s [] = True"
| "startswith [] (c # p) = False"
| "startswith (d # s) (c # p) = (d = c \<and> startswith s p)"

fun str_in :: "string \<Rightarrow> string \<Rightarrow> bool" where
  "str_in p [] = (p = [])"
| "str_in p (c # s) = (startswith (c # s) p \<or> str_in p s)"

definition endswith :: "string \<Rightarrow> string \<Rightarrow> bool" where
  "endswith s p = startswith (rev s) (rev p)"

text \<open>\<^verbatim>\<open>d[k]\<close> with a string key: only a dict has it; a missing key raises.\<close>

fun getitem :: "pyval \<Rightarrow> string \<Rightarrow> py_error + pyval" where
  "getitem (PyDict kvs) k = (case map_of kvs k of None \<Rightarrow> Inl KeyError | Some v \<Rightarrow> Inr v)"
| "getitem _ k = Inl TypeError"

text \<open>\<^verbatim>\<open>d.get(k)\<close>: \<^verbatim>\<open>None\<close> for a missing key; only a dict has the method.\<close>

fun dict_get :: "pyval \<Rightarrow> string \<Rightarrow> py_error + pyval" where
  "dict_get (PyDict kvs) k = Inr (case map_of kvs k of None \<Rightarrow> PyNone | Some v \<Rightarrow> v)"
| "dict_get _ k = Inl AttributeError"

text \<open>\<^verbatim>\<open>k in d\<close>: a key of a dict, an element of a list, a substring of a string.\<close>

fun contains :: "pyval \<Rightarrow> string \<Rightarrow> py_error + bool" where
  "contains (PyDict kvs) k = Inr (map_of kvs k \<noteq> None)"
| "contains (PyList vs) k = Inr (PyStr k \<in> set vs)"
| "contains (PyStr s) k = Inr (str_in k s)"
| "contains _ k = Inl TypeError"

text \<open>The numbers of Python: floats and ints are \<open>PyNum\<close>, and a bool counts as 0 or 1.\<close>

fun as_number :: "pyval \<Rightarrow> real option" where
  "as_number (PyNum x) = Some x"
| "as_number (PyBool b) = Some (if b then 1 else 0)"
| "as_number _ = None"

text \<open>\<^verbatim>\<open>a / b\<close>: true division of two numbers.\<close>

definition truediv :: "pyval \<Rightarrow> pyval \<Rightarrow> py_error + pyval" where
  "truediv a b =
     (case (as_number a, as_number b) of
        (Some x, Some y) \<Rightarrow> if y = 0 then Inl ZeroDivisionError else Inr (PyNum (x / y))
      | _ \<Rightarrow> Inl TypeError)"

text \<open>\<^verbatim>\<open>rate * weight\<close> with a float weight: defined on numbers only.\<close>

definition mul_float :: "pyval \<Rightarrow> real \<Rightarrow> py_error + real" where
  "mul_float a w = (case as_number a of Some x \<Rightarrow> Inr (x * w) | None \<Rightarrow> Inl TypeError)"

subsection \<open>Forex providers\<close>

text \<open>
  \<^verbatim>\<open>PROVIDER_CONFIG\<close> is a module-level dict read at each call: an ordered table of
  provider key and provider entry, passed to the functions below as \<open>cfg\<close>.
\<close>

record provider_info =
  url :: string
  weight :: real

type_synonym provider_config = "(string \<times> provider_info) list"

definition PROVIDER_CONFIG :: provider_config where
  "PROVIDER_CONFIG =
     [(''EXCHANGERATE_HOST'',
         \<lparr>url = ''https://api.exchangerate.host/latest'', weight = 1.0\<rparr>),
      (''EXCHANGERATE_API'',
         \<lparr>url = ''https://v6.exchangerate-api.com/v6/YOUR_API_KEY/latest/'', weight = 0.8\<rparr>),
      (''OPEN_EXCHANGE_RATES'',
         \<lparr>url = ''https://openexchangerates.org/api/latest.json?app_id=YOUR_APP_ID'', weight = 0.9\<rparr>)]"

text \<open>
  The network, as the code sees it: \<^verbatim>\<open>requests.get(url, params)\<close> raises (\<open>None\<close>) or
  gives a response, and \<^verbatim>\<open>r.json()\<close> raises when the body is not JSON (\<open>None\<close>) or
  gives the decoded value.
\<close>

datatype response = Response (body_json: "pyval option")

type_synonym network = "string \<Rightarrow> (string \<times> string) list \<Rightarrow> response option"

definition requests_get :: "network \<Rightarrow> string \<Rightarrow> (string \<times> string) list \<Rightarrow> py_error + response" where
  "requests_get net u params = (case net u params of None \<Rightarrow> Inl RequestException | Some r \<Rightarrow> Inr r)"

definition response_json :: "response \<Rightarrow> py_error + pyval" where
  "response_json r = (case body_json r of None \<Rightarrow> Inl JSONDecodeError | Some d \<Rightarrow> Inr d)"

text \<open>
  The body of the \<^verbatim>\<open>try\<close> block of \<^verbatim>\<open>fetch_forex_rate\<close>. \<open>Inr PyNone\<close> is the block
  ending without a \<^verbatim>\<open>return\<close> (the final \<^verbatim>\<open>return None\<close> follows) or returning
  \<^verbatim>\<open>None\<close> itself.
\<close>

definition fetch_forex_rate_try ::
    "network \<Rightarrow> string \<Rightarrow> string \<Rightarrow> string \<Rightarrow> string \<Rightarrow> py_error + pyval" where
  "fetch_forex_rate_try net provider_key u base target =
     (if str_in ''EXCHANGERATE_HOST'' provider_key then
        and_then (requests_get net u [(''base'', base), (''symbols'', target)]) (\<lambda>r.
        and_then (response_json r) (\<lambda>data.
        and_then (getitem data ''rates'') (\<lambda>rates.
        getitem rates target)))
      else if str_in ''EXCHANGERATE_API'' provider_key then
        and_then (requests_get net ((if endswith u ''/'' then u else u @ ''/'') @ base) []) (\<lambda>r.
        and_then (response_json r) (\<lambda>data.
        and_then (getitem data ''conversion_rates'') (\<lambda>conversion_rates.
        dict_get conversion_rates target)))
      else if str_in ''OPEN_EXCHANGE_RATES'' provider_key then
        and_then (requests_get net u []) (\<lambda>r.
        and_then (response_json r) (\<lambda>data.
        and_then (getitem data ''rates'') (\<lambda>rates.
        if base = ''USD'' then dict_get rates target
        else
          and_then (contains rates base) (\<lambda>has_base.
          if has_base then
            and_then (contains rates target) (\<lambda>has_target.
            if has_target then
              and_then (getitem rates target) (\<lambda>x.
              and_then (getitem rates base) (\<lambda>y.
              truediv x y))
            else Inr PyNone)
          else Inr PyNone))))
      else Inr PyNone)"

text \<open>
  \<^verbatim>\<open>fetch_forex_rate\<close>: the config lookup is outside the \<^verbatim>\<open>try\<close> (an unknown key
  raises); the bare \<^verbatim>\<open>except\<close> turns every exception of the block into \<^verbatim>\<open>None\<close>.
\<close>

definition fetch_forex_rate ::
    "provider_config \<Rightarrow> network \<Rightarrow> string \<Rightarrow> string \<Rightarrow> string \<Rightarrow> py_error + pyval" where
  "fetch_forex_rate cfg net provider_key base target =
     (case map_of cfg provider_key of
        None \<Rightarrow> Inl KeyError
      | Some config \<Rightarrow>
          Inr (case fetch_forex_rate_try net provider_key (url config) base target of
                 Inl e \<Rightarrow> PyNone
               | Inr v \<Rightarrow> v))"

text \<open>
  The loop of \<^verbatim>\<open>get_advanced_forex_rate\<close> over \<^verbatim>\<open>PROVIDER_CONFIG.items()\<close>, with the
  accumulators \<^verbatim>\<open>total_weighted_rate\<close> and \<^verbatim>\<open>total_weight\<close>. Nothing here catches an
  exception.
\<close>

fun forex_loop ::
    "provider_config \<Rightarrow> network \<Rightarrow> string \<Rightarrow> string \<Rightarrow> provider_config \<Rightarrow> real \<times> real
       \<Rightarrow> py_error + real \<times> real" where
  "forex_loop cfg net base target [] acc = Inr acc"
| "forex_loop cfg net base target ((provider_key, info) # rest) (total_weighted_rate, total_weight) =
     and_then (fetch_forex_rate cfg net provider_key base target) (\<lambda>rate.
       if rate \<noteq> PyNone then
         and_then (mul_float rate (weight info)) (\<lambda>x.
           forex_loop cfg net base target rest
             (total_weighted_rate + x, total_weight + weight info))
       else forex_loop cfg net base target rest (total_weighted_rate, total_weight))"

definition get_advanced_forex_rate ::
    "provider_config \<Rightarrow> network \<Rightarrow> string \<Rightarrow> string \<Rightarrow> py_error + real option" where
  "get_advanced_forex_rate cfg net base target =
     and_then (forex_loop cfg net base target cfg (0, 0)) (\<lambda>(total_weighted_rate, total_weight).
       if total_weight > 0 then Inr (Some (total_weighted_rate / total_weight)) else Inr None)"

text \<open>What the loop receives from a provider of the table: its return value.\<close>

definition fetched :: "provider_config \<Rightarrow> network \<Rightarrow> string \<Rightarrow> string \<Rightarrow> string \<Rightarrow> pyval" where
  "fetched cfg net base target provider_key =
     (case fetch_forex_rate cfg net provider_key base target of Inl e \<Rightarrow> PyNone | Inr v \<Rightarrow> v)"

text \<open>
  The quotes of one aggregation call: rate and weight of every provider whose fetch gave
  a number, in the order of the table.
\<close>

definition quotes :: "provider_config \<Rightarrow> network \<Rightarrow> string \<Rightarrow> string \<Rightarrow> provider_config \<Rightarrow> (real \<times> real) list" where
  "quotes cfg net base target items =
     concat (map (\<lambda>(k, info). case as_number (fetched cfg net base target k) of
                                 None \<Rightarrow> [] | Some r \<Rightarrow> [(r, weight info)]) items)"

text \<open>A provider either gives a number or nothing.\<close>

definition rate_or_none :: "pyval \<Rightarrow> bool" where
  "rate_or_none v = (v = PyNone \<or> as_number v \<noteq> None)"

subsection \<open>Alerts\<close>

text \<open>
  A line of the message body: the symbol, the threshold and the current price of an
  upper or a lower breach (the text of the line is formatted from these three).
\<close>

datatype trigger = Above string real real | Below string real real

record email_msg =
  to_email :: string
  subject :: string
  body :: "trigger list"

text \<open>
  The mail server: whether it takes the message. \<^verbatim>\<open>send_email_alert\<close> raises when it
  does not; the messages taken so far are the outbox.
\<close>

type_synonym smtp = "email_msg \<Rightarrow> bool"

definition send_email_alert ::
    "smtp \<Rightarrow> string \<Rightarrow> string \<Rightarrow> trigger list \<Rightarrow> email_msg list \<Rightarrow> py_error + email_msg list" where
  "send_email_alert server to subj b outbox =
     (let msg = \<lparr>to_email = to, subject = subj, body = b\<rparr> in
      if server msg then Inr (outbox @ [msg]) else Inl SMTPException)"

text \<open>
  One pass of the loop body up to \<^verbatim>\<open>if triggered\<close>. The test
  \<^verbatim>\<open>alert.upper_threshold and current_price >= alert.upper_threshold\<close> takes the
  threshold's truth value first: \<^verbatim>\<open>None\<close> and \<^verbatim>\<open>0.0\<close> are both false.
\<close>

definition evaluate_alert :: "string \<Rightarrow> real \<Rightarrow> alert \<Rightarrow> bool \<times> trigger list" where
  "evaluate_alert symbol_name current_price a =
     (case (case upper_threshold a of
              None \<Rightarrow> (False, [])
            | Some u \<Rightarrow>
                if u \<noteq> 0 \<and> current_price \<ge> u
                then (True, [Above symbol_name u current_price])
                else (False, [])) of
        (triggered, msg_lines) \<Rightarrow>
          (case lower_threshold a of
             None \<Rightarrow> (triggered, msg_lines)
           | Some l \<Rightarrow>
               if l \<noteq> 0 \<and> current_price \<le> l
               then (True, msg_lines @ [Below symbol_name l current_price])
               else (triggered, msg_lines)))"

text \<open>\<^verbatim>\<open>alert.user.email\<close>: the relationship gives \<^verbatim>\<open>None\<close> when no user row has the id.\<close>

definition alert_user_email :: "session \<Rightarrow> alert \<Rightarrow> py_error + string" where
  "alert_user_email s a =
     (case find (\<lambda>u. user_id u = alert_user_id a) (users s) of
        None \<Rightarrow> Inl AttributeError
      | Some u \<Rightarrow> Inr (email u))"

text \<open>
  The \<^verbatim>\<open>for alert in alerts\<close> loop. The result is the outbox and the exception that
  ended the loop, if one did.
\<close>

fun alerts_loop ::
    "session \<Rightarrow> smtp \<Rightarrow> string \<Rightarrow> real \<Rightarrow> alert list \<Rightarrow> email_msg list
       \<Rightarrow> email_msg list \<times> py_error option" where
  "alerts_loop s server symbol_name current_price [] outbox = (outbox, None)"
| "alerts_loop s server symbol_name current_price (a # rest) outbox =
     (case evaluate_alert symbol_name current_price a of
        (triggered, msg_lines) \<Rightarrow>
          if triggered then
            (case alert_user_email s a of
               Inl e \<Rightarrow> (outbox, Some e)
             | Inr to \<Rightarrow>
                 (case send_email_alert server to (''Price Alert for '' @ symbol_name) msg_lines outbox of
                    Inl e \<Rightarrow> (outbox, Some e)
                  | Inr outbox' \<Rightarrow> alerts_loop s server symbol_name current_price rest outbox'))
          else alerts_loop s server symbol_name current_price rest outbox)"

definition check_and_trigger_alerts ::
    "session \<Rightarrow> smtp \<Rightarrow> string \<Rightarrow> real \<Rightarrow> email_msg list \<times> py_error option" where
  "check_and_trigger_alerts s server symbol_name current_price =
     (case find (\<lambda>y. name y = symbol_name) (symbols s) of
        None \<Rightarrow> ([], None)
      | Some symbol_obj \<Rightarrow>
          alerts_loop s server symbol_name current_price
            (filter (\<lambda>a. alert_symbol_id a = symbol_id symbol_obj \<and> active a) (alerts s)) [])"

subsection \<open>Responses without a rate\<close>

text \<open>
  Whether a decoded payload offers a rate for the target: the field (\<^verbatim>\<open>rates\<close> or
  \<^verbatim>\<open>conversion_rates\<close>) is a dict with the target as a key.
\<close>

definition has_rate :: "pyval \<Rightarrow> string \<Rightarrow> string \<Rightarrow> bool" where
  "has_rate data field target =
     (case getitem data field of
        Inr (PyDict tbl) \<Rightarrow> map_of tbl target \<noteq> None
      | _ \<Rightarrow> False)"

text \<open>
  A request that gives no rate for the target: it raised, or its body is not JSON, or the
  payload offers no rate for the target in either field.
\<close>

definition response_without_rate :: "response option \<Rightarrow> string \<Rightarrow> bool" where
  "response_without_rate resp target =
     (case resp of
        None \<Rightarrow> True
      | Some r \<Rightarrow>
          (case body_json r of
             None \<Rightarrow> True
           | Some data \<Rightarrow>
               \<not> has_rate data ''rates'' target \<and> \<not> has_rate data ''conversion_rates'' target))"

text \<open>The \<^verbatim>\<open>try\<close> block raised or ended with \<^verbatim>\<open>None\<close>.\<close>

definition no_quote :: "py_error + pyval \<Rightarrow> bool" where
  "no_quote r = (case r of Inl e \<Rightarrow> True | Inr v \<Rightarrow> v = PyNone)"

subsection \<open>Example configurations and networks\<close>

text \<open>
  Scenario 2 of the specification: provider A quotes 1.10 with weight 1.0, provider B
  quotes 1.12 with weight 0.5, and the request of provider C fails.
\<close>

definition scenario2_config :: provider_config where
  "scenario2_config =
     [(''EXCHANGERATE_HOST'', \<lparr>url = ''https://a.test/latest'', weight = 1.0\<rparr>),
      (''EXCHANGERATE_API'', \<lparr>url = ''https://b.test/latest'', weight = 0.5\<rparr>),
      (''OPEN_EXCHANGE_RATES'', \<lparr>url = ''https://c.test/latest.json'', weight = 0.9\<rparr>)]"

definition scenario2_net :: network where
  "scenario2_net u params =
     (if u = ''https://a.test/latest'' \<and> params = [(''base'', ''USD''), (''symbols'', ''EUR'')]
      then Some (Response (Some (PyDict [(''rates'', PyDict [(''EUR'', PyNum 1.10)])])))
      else if u = ''https://b.test/latest/USD'' \<and> params = []
      then Some (Response (Some (PyDict [(''conversion_rates'', PyDict [(''EUR'', PyNum 1.12)])])))
      else None)"

text \<open>
  A network on which the three configured providers answer a request for GBP to EUR; the
  third one quotes both currencies against USD.
\<close>

definition gbp_eur_net :: network where
  "gbp_eur_net u params =
     (if u = ''https://api.exchangerate.host/latest''
         \<and> params = [(''base'', ''GBP''), (''symbols'', ''EUR'')]
      then Some (Response (Some (PyDict [(''rates'', PyDict [(''EUR'', PyNum 1.16)])])))
      else if u = ''https://v6.exchangerate-api.com/v6/YOUR_API_KEY/latest/GBP'' \<and> params = []
      then Some (Response (Some (PyDict [(''conversion_rates'', PyDict [(''EUR'', PyNum 1.17)])])))
      else if u = ''https://openexchangerates.org/api/latest.json?app_id=YOUR_APP_ID'' \<and> params = []
      then Some (Response (Some (PyDict [(''rates'',
             PyDict [(''GBP'', PyNum 0.8), (''EUR'', PyNum 0.92)])])))
      else None)"

text \<open>
  A session with one user, the symbol AAPL and one alert rule on it, with the given
  thresholds and active flag.
\<close>

definition alert_session :: "real option \<Rightarrow> real option \<Rightarrow> bool \<Rightarrow> session" where
  "alert_session upper lower act =
     \<lparr>users = [\<lparr>user_id = 1, username = ''demo'', email = ''demo@example.com''\<rparr>],
      symbols = [\<lparr>symbol_id = 1, name = ''AAPL'', symbol_type = ''stock''\<rparr>],
      transactions = [],
      alerts = [\<lparr>alert_id = 1, alert_user_id = 1, alert_symbol_id = 1,
                 upper_threshold = upper, lower_threshold = lower, active = act\<rparr>]\<rparr>"

text \<open>A ledger whose net quantity is 0: buy 5, sell 5.\<close>

definition flat_session :: session where
  "flat_session =
     \<lparr>users = [\<lparr>user_id = 1, username = ''demo'', email = ''demo@example.com''\<rparr>],
      symbols = [\<lparr>symbol_id = 1, name = ''AAPL'', symbol_type = ''stock''\<rparr>,
                 \<lparr>symbol_id = 2, name = ''bitcoin'', symbol_type = ''crypto''\<rparr>],
      transactions =
        [\<lparr>tx_id = 1, tx_user_id = 1, tx_symbol_id = 1, quantity = 5, price = 120, timestamp = 0\<rparr>,
         \<lparr>tx_id = 2, tx_user_id = 1, tx_symbol_id = 1, quantity = - 5, price = 150, timestamp = 1\<rparr>],
      alerts = []\<rparr>"



subsection \<open>Binary64 arithmetic\<close>

text \<open>
  A Python float is an IEEE 754 binary64 number, and every \<^verbatim>\<open>+\<close>, \<^verbatim>\<open>*\<close> and \<^verbatim>\<open>/\<close> on
  floats gives the exact result rounded to the nearest such number, ties to the even
  significand. The definitions so far read these operations as exact. The definitions
  with the suffix \<open>_fl\<close> below read them as the code computes them; they are used
  where a statement compares results of the program with each other or with its inputs.
\<close>

text \<open>
  Rounding to the nearest integer, a tie going to the even one.
\<close>

definition round_even :: "real \<Rightarrow> int" where
  "round_even x =
     (let f = \<lfloor>x\<rfloor>; d = x - of_int f in
      if d < 1 / 2 then f else if d > 1 / 2 then f + 1 else if even f then f else f + 1)"

text \<open>
  The binary exponent of a positive number: the \<open>e\<close> with \<open>2^e \<le> x < 2^(e+1)\<close>.
\<close>

function expo :: "real \<Rightarrow> int" where
  "expo x = (if x \<le> 0 then 0
             else if x < 1 then expo (2 * x) - 1
             else if x \<ge> 2 then expo (x / 2) + 1
             else 0)"
  by pat_completeness auto
termination
proof (relation "measure (\<lambda>x. if x < 1 then nat \<lceil>1 / x\<rceil> else nat \<lfloor>x\<rfloor>)")
  show "wf (measure (\<lambda>x. if x < 1 then nat \<lceil>1 / x\<rceil> else nat \<lfloor>x\<rfloor>))" by simp
next
  fix x :: real
  assume a: "\<not> x \<le> 0" "x < 1"
  show "(2 * x, x) \<in> measure (\<lambda>x. if x < 1 then nat \<lceil>1 / x\<rceil> else nat \<lfloor>x\<rfloor>)"
  proof (cases "2 * x < 1")
    case True
    with a have "1 / x > 2" by (simp add: field_simps)
    then have "1 / (2 * x) \<le> 1 / x - 1" by (simp add: field_simps)
    then have "\<lceil>1 / (2 * x)\<rceil> \<le> \<lceil>1 / x - 1\<rceil>" by (rule ceiling_mono)
    then have "\<lceil>1 / (2 * x)\<rceil> < \<lceil>1 / x\<rceil>" by simp
    moreover from a have "\<lceil>1 / x\<rceil> > 0" by simp
    ultimately show ?thesis using True a by simp
  next
    case False
    with a have x2: "1 \<le> 2 * x" "2 * x < 2" by simp_all
    then have "\<lfloor>2 * x\<rfloor> = 1" by (simp add: floor_eq_iff)
    moreover from a have "1 / x > 1" by simp
    then have "\<lceil>1 / x\<rceil> \<ge> 2" by (simp add: le_ceiling_iff)
    ultimately show ?thesis using False a by simp
  qed
next
  fix x :: real
  assume a: "\<not> x \<le> 0" "\<not> x < 1" "2 \<le> x"
  then have "x / 2 \<le> x - 1" by simp
  then have "\<lfloor>x / 2\<rfloor> \<le> \<lfloor>x - 1\<rfloor>" by (rule floor_mono)
  then have "\<lfloor>x / 2\<rfloor> < \<lfloor>x\<rfloor>" by simp
  moreover from a have "\<lfloor>x\<rfloor> > 0" by simp
  moreover from a have "\<not> x / 2 < 1" by simp
  ultimately show "(x / 2, x) \<in> measure (\<lambda>x. if x < 1 then nat \<lceil>1 / x\<rceil> else nat \<lfloor>x\<rfloor>)"
    using a by simp
qed

declare expo.simps [simp del]

text \<open>
  The number with a significand of 53 bits nearest to \<open>x\<close>.
\<close>

definition round_double :: "real \<Rightarrow> real" where
  "round_double x =
     (if x = 0 then 0
      else let q = 2 powi (expo \<bar>x\<bar> - 52) in of_int (round_even (x / q)) * q)"

text \<open>
  The float nearest to \<open>x\<close>. Outside the normal range of binary64 (the result would be
  subnormal, or infinite, or the conversion of an int would raise \<^verbatim>\<open>OverflowError\<close>) the
  value is \<open>None\<close>: nothing is said here about what the program does then.
\<close>

definition fl :: "real \<Rightarrow> real option" where
  "fl x = (if x = 0 then Some 0
           else if \<bar>x\<bar> < 2 powi (- 1022) \<or> \<bar>x\<bar> \<ge> 2 ^ 1024 - 2 ^ 970 then None
           else Some (round_double x))"


definition fadd :: "real \<Rightarrow> real \<Rightarrow> real option" where
  "fadd a b = fl (a + b)"

definition fmul :: "real \<Rightarrow> real \<Rightarrow> real option" where
  "fmul a b = fl (a * b)"

definition fdiv :: "real \<Rightarrow> real \<Rightarrow> real option" where
  "fdiv a b = fl (a / b)"

text \<open>
  The unit roundoff of binary64: the relative error of one rounding is at most this.
\<close>

definition unit_roundoff :: real where
  "unit_roundoff = 2 powi (- 53)"

subsection \<open>Cost basis in binary64\<close>







subsection \<open>Aggregation in binary64\<close>

text \<open>
  The outcome of a run with the arithmetic of the code: an exception, a float operation
  outside the normal range (not described further), or a returned value.
\<close>

datatype 'a outcome = Raises py_error | OutOfRange | Returns 'a

text \<open>
  The loop of \<^verbatim>\<open>get_advanced_forex_rate\<close> with the arithmetic of the code. \<open>fetch\<close> is
  the call \<^verbatim>\<open>fetch_forex_rate(provider_key, base, target)\<close> as a function of the key. In
  \<^verbatim>\<open>rate * weight\<close> a number that is not yet a float (a JSON int, a decimal of the
  payload) is first converted to the nearest float.
\<close>

fun forex_loop_fl ::
    "(string \<Rightarrow> py_error + pyval) \<Rightarrow> provider_config \<Rightarrow> real \<times> real \<Rightarrow> (real \<times> real) outcome" where
  "forex_loop_fl fetch [] acc = Returns acc"
| "forex_loop_fl fetch ((provider_key, info) # rest) (total_weighted_rate, total_weight) =
     (case fetch provider_key of
        Inl e \<Rightarrow> Raises e
      | Inr rate \<Rightarrow>
          if rate \<noteq> PyNone then
            (case as_number rate of
               None \<Rightarrow> Raises TypeError
             | Some x \<Rightarrow>
                 (case Option.bind (fl x) (\<lambda>r.
                       Option.bind (fmul r (weight info)) (\<lambda>weighted.
                       Option.bind (fadd total_weighted_rate weighted) (\<lambda>total_weighted_rate'.
                       Option.bind (fadd total_weight (weight info)) (\<lambda>total_weight'.
                       Some (total_weighted_rate', total_weight'))))) of
                    None \<Rightarrow> OutOfRange
                  | Some acc' \<Rightarrow> forex_loop_fl fetch rest acc'))
          else forex_loop_fl fetch rest (total_weighted_rate, total_weight))"

definition get_advanced_forex_rate_fl ::
    "(string \<Rightarrow> py_error + pyval) \<Rightarrow> provider_config \<Rightarrow> real option outcome" where
  "get_advanced_forex_rate_fl fetch cfg =
     (case forex_loop_fl fetch cfg (0, 0) of
        Raises e \<Rightarrow> Raises e
      | OutOfRange \<Rightarrow> OutOfRange
      | Returns (total_weighted_rate, total_weight) \<Rightarrow>
          if total_weight > 0
          then (case fdiv total_weighted_rate total_weight of
                  None \<Rightarrow> OutOfRange
                | Some v \<Rightarrow> Returns (Some v))
          else Returns None)"

text \<open>
  The quotes of one call: number and weight of every provider whose fetch returned a
  number, in the order of the table.
\<close>

definition returned_quotes :: "(string \<Rightarrow> py_error + pyval) \<Rightarrow> provider_config \<Rightarrow> (real \<times> real) list" where
  "returned_quotes fetch items =
     concat (map (\<lambda>(k, info). case fetch k of
                                  Inl e \<Rightarrow> []
                                | Inr v \<Rightarrow> (case as_number v of None \<Rightarrow> [] | Some x \<Rightarrow> [(x, weight info)]))
                 items)"

text \<open>
  The accumulation of the loop over a list of quotes.
\<close>

fun mean_sums_fl :: "(real \<times> real) list \<Rightarrow> real \<times> real \<Rightarrow> (real \<times> real) option" where
  "mean_sums_fl [] acc = Some acc"
| "mean_sums_fl ((x, w) # qs) (total_weighted_rate, total_weight) =
     Option.bind (fl x) (\<lambda>rate.
     Option.bind (fmul rate w) (\<lambda>weighted.
     Option.bind (fadd total_weighted_rate weighted) (\<lambda>total_weighted_rate'.
     Option.bind (fadd total_weight w) (\<lambda>total_weight'.
     mean_sums_fl qs (total_weighted_rate', total_weight')))))"

text \<open>
  The rounding slack of the weighted mean of \<open>n\<close> quotes, relative to the largest
  magnitude of a rate: \<open>n + 2\<close> roundings go into the numerator, \<open>n\<close> into the
  denominator and one into the quotient. For three quotes it is below \<open>2^-49\<close>.
\<close>

definition rounding_slack :: "nat \<Rightarrow> real" where
  "rounding_slack n =
     (let u = unit_roundoff; g = (1 + u) ^ (n + 2) - 1; h = (1 + u) ^ n - 1
      in (g + h) * (1 + u) / (1 - h) + u)"


text \<open>
  The weights of a table as the floats their literals denote.
\<close>

definition float_config :: "provider_config \<Rightarrow> provider_config" where
  "float_config cfg = map (\<lambda>(k, info). (k, info\<lparr>weight := round_double (weight info)\<rparr>)) cfg"

text \<open>
  A network on which the three configured providers quote 1.5 for USD to EUR.
\<close>

definition agree_net :: network where
  "agree_net u params =
     (if u = ''https://api.exchangerate.host/latest''
         \<and> params = [(''base'', ''USD''), (''symbols'', ''EUR'')]
      then Some (Response (Some (PyDict [(''rates'', PyDict [(''EUR'', PyNum 1.5)])])))
      else if u = ''https://v6.exchangerate-api.com/v6/YOUR_API_KEY/latest/USD'' \<and> params = []
      then Some (Response (Some (PyDict [(''conversion_rates'', PyDict [(''EUR'', PyNum 1.5)])])))
      else if u = ''https://openexchangerates.org/api/latest.json?app_id=YOUR_APP_ID'' \<and> params = []
      then Some (Response (Some (PyDict [(''rates'', PyDict [(''EUR'', PyNum 1.5)])])))
      else None)"


text \<open>
  Scenario 2 with the second provider's rate sent as the string \<^verbatim>\<open>"1.12"\<close>, and a
  network on which all three configured providers send the rate as a string.
\<close>

definition string_rate_net :: network where
  "string_rate_net u params =
     (if u = ''https://a.test/latest'' \<and> params = [(''base'', ''USD''), (''symbols'', ''EUR'')]
      then Some (Response (Some (PyDict [(''rates'', PyDict [(''EUR'', PyNum 1.10)])])))
      else if u = ''https://b.test/latest/USD'' \<and> params = []
      then Some (Response (Some (PyDict [(''conversion_rates'', PyDict [(''EUR'', PyStr ''1.12'')])])))
      else None)"

definition malformed_net :: network where
  "malformed_net u params =
     (if u = ''https://api.exchangerate.host/latest''
         \<and> params = [(''base'', ''USD''), (''symbols'', ''EUR'')]
      then Some (Response (Some (PyDict [(''rates'', PyDict [(''EUR'', PyStr ''0.92'')])])))
      else if u = ''https://v6.exchangerate-api.com/v6/YOUR_API_KEY/latest/USD'' \<and> params = []
      then Some (Response (Some (PyDict [(''conversion_rates'', PyDict [(''EUR'', PyStr ''0.92'')])])))
      else if u = ''https://openexchangerates.org/api/latest.json?app_id=YOUR_APP_ID'' \<and> params = []
      then Some (Response (Some (PyDict [(''rates'', PyDict [(''EUR'', PyStr ''0.92'')])])))
      else None)"

subsection \<open>Cost basis: the loop computes the two sums\<close>

lemma cost_basis_loop_sums:
  "cost_basis_loop txs (c, q) =
     (c + sum_list (map (\<lambda>t. quantity t * price t) (filter (\<lambda>t. quantity t > 0) txs)),
      q + sum_list (map quantity (filter (\<lambda>t. quantity t > 0) txs)))"
  by (induction txs arbitrary: c q) simp_all

lemma sum_list_pos_quantities:
  "sum_list (map quantity (filter (\<lambda>t. quantity t > 0) txs)) \<ge> 0"
  by (induction txs) simp_all

lemma sum_list_pos_quantities_strict:
  "\<exists>t \<in> set txs. quantity t > 0 \<Longrightarrow>
   sum_list (map quantity (filter (\<lambda>t. quantity t > 0) txs)) > 0"
proof (induction txs)
  case Nil
  then show ?case by simp
next
  case (Cons t txs)
  have "sum_list (map quantity (filter (\<lambda>t. quantity t > 0) txs)) \<ge> 0"
    by (rule sum_list_pos_quantities)
  with Cons show ?case by (cases "quantity t > 0") auto
qed

lemma cost_basis_loop_acquisitions:
  "cost_basis_loop (filter (\<lambda>t. tx_user_id t = uid \<and> tx_symbol_id t = sid) (transactions s)) (0, 0) =
     (sum_list (map (\<lambda>t. quantity t * price t) (acquisitions s uid sid)),
      sum_list (map quantity (acquisitions s uid sid)))"
  unfolding acquisitions_def cost_basis_loop_sums by simp

lemma acquisitions_quantity_pos:
  "acquisitions s uid sid \<noteq> [] \<Longrightarrow> sum_list (map quantity (acquisitions s uid sid)) > 0"
proof -
  assume "acquisitions s uid sid \<noteq> []"
  then obtain t where "t \<in> set (acquisitions s uid sid)"
    by (cases "acquisitions s uid sid") auto
  then have "\<exists>t \<in> set (filter (\<lambda>t. tx_user_id t = uid \<and> tx_symbol_id t = sid) (transactions s)).
               quantity t > 0"
    unfolding acquisitions_def by auto
  then show ?thesis
    unfolding acquisitions_def by (rule sum_list_pos_quantities_strict)
qed

lemma calculate_average_cost_basis_sums:
  "calculate_average_cost_basis s uid sid =
     (if acquisitions s uid sid = [] then 0
      else sum_list (map (\<lambda>t. quantity t * price t) (acquisitions s uid sid))
           / sum_list (map quantity (acquisitions s uid sid)))"
proof (cases "acquisitions s uid sid = []")
  case True
  then show ?thesis
    unfolding calculate_average_cost_basis_def Let_def cost_basis_loop_acquisitions by simp
next
  case False
  from acquisitions_quantity_pos [OF False] False show ?thesis
    unfolding calculate_average_cost_basis_def Let_def cost_basis_loop_acquisitions by simp
qed

subsection \<open>Average cost basis\<close>

text \<open>
  C3. For every user and symbol, the average cost basis is the sum of quantity times
  price over the transactions with positive quantity divided by the sum of their
  quantities, and it is 0 when the pair has no transaction with positive quantity. On the
  ledger buy 10 at 120, sell 4 at 150 it is 120.
\<close>

theorem average_cost_basis_acquisitions:
  "calculate_average_cost_basis s uid sid =
     (if \<exists>t \<in> set (transactions s). tx_user_id t = uid \<and> tx_symbol_id t = sid \<and> quantity t > 0
      then sum_list (map (\<lambda>t. quantity t * price t) (acquisitions s uid sid))
           / sum_list (map quantity (acquisitions s uid sid))
      else 0)"
proof -
  have eq: "(\<exists>t \<in> set (transactions s). tx_user_id t = uid \<and> tx_symbol_id t = sid \<and> quantity t > 0) =
        (acquisitions s uid sid \<noteq> [])"
    unfolding acquisitions_def filter_filter by (auto simp: filter_empty_conv)
  show ?thesis
    unfolding calculate_average_cost_basis_sums eq by simp
qed

theorem average_cost_basis_scenario1:
  "calculate_average_cost_basis scenario1 1 1 = 120 \<and>
   calculate_average_cost_basis scenario1 1 2 = 0"
  using average_cost_basis_acquisitions [of scenario1 1 1]
        average_cost_basis_acquisitions [of scenario1 1 2]
  by (simp add: scenario1_def acquisitions_def)

subsection \<open>Holdings and reordering of the ledger\<close>

lemma group_sum_lookup:
  "group_sum rows m n =
     (if filter (\<lambda>r. fst r = n) rows = [] then m n
      else Some ((case m n of None \<Rightarrow> 0 | Some a \<Rightarrow> a)
                 + sum_list (map snd (filter (\<lambda>r. fst r = n) rows))))"
proof (induction rows arbitrary: m)
  case Nil
  show ?case by simp
next
  case (Cons r rows)
  obtain n' q where r: "r = (n', q)" by (cases r)
  show ?case
    unfolding r by (cases "n' = n") (auto simp: Cons.IH split: option.splits)
qed

lemma get_current_holdings_lookup:
  "get_current_holdings s uid n =
     (if filter (\<lambda>r. fst r = n) (holdings_rows s uid) = [] then None
      else Some (sum_list (map snd (filter (\<lambda>r. fst r = n) (holdings_rows s uid)))))"
  unfolding get_current_holdings_def group_sum_lookup by simp

lemma filter_unique_key:
  assumes "distinct (map f xs)" and "y \<in> set xs"
  shows "filter (\<lambda>x. f x = f y) xs = [y]"
  using assms
proof (induction xs)
  case Nil
  then show ?case by simp
next
  case (Cons x xs)
  show ?case
  proof (cases "x = y")
    case True
    from Cons.prems(1) have "\<forall>z \<in> set xs. f z \<noteq> f x" by (auto simp: image_iff)
    then have "filter (\<lambda>z. f z = f x) xs = []" by (simp add: filter_empty_conv)
    with True show ?thesis by simp
  next
    case False
    with Cons.prems have y: "y \<in> set xs" and d: "distinct (map f xs)" by auto
    from Cons.prems(1) y have "f x \<noteq> f y" by auto
    with Cons.IH [OF d y] show ?thesis by simp
  qed
qed

lemma rows_of_symbol:
  assumes "distinct (map name ys)" and "y \<in> set ys"
  shows "map snd (filter (\<lambda>r. fst r = name y)
           (concat (map (\<lambda>t. map (\<lambda>z. (name z, quantity t))
                                (filter (\<lambda>z. symbol_id z = tx_symbol_id t) ys)) txs))) =
         map quantity (filter (\<lambda>t. tx_symbol_id t = symbol_id y) txs)"
proof (induction txs)
  case Nil
  show ?case by simp
next
  case (Cons t txs)
  have "filter (\<lambda>r. fst r = name y)
          (map (\<lambda>z. (name z, quantity t)) (filter (\<lambda>z. symbol_id z = tx_symbol_id t) ys)) =
        map (\<lambda>z. (name z, quantity t))
          (filter (\<lambda>z. symbol_id z = tx_symbol_id t) (filter (\<lambda>z. name z = name y) ys))"
    by (simp add: filter_map comp_def conj_commute)
  also have "\<dots> = (if symbol_id y = tx_symbol_id t then [(name y, quantity t)] else [])"
    by (simp add: filter_unique_key [OF assms])
  finally show ?case
    using Cons.IH by auto
qed

lemma holdings_of_symbol:
  assumes "distinct (map name (symbols s))" and "y \<in> set (symbols s)"
  shows "map snd (filter (\<lambda>r. fst r = name y) (holdings_rows s uid)) =
         map quantity (filter (\<lambda>t. tx_user_id t = uid \<and> tx_symbol_id t = symbol_id y) (transactions s))"
  unfolding holdings_rows_def rows_of_symbol [OF assms]
  by (simp add: conj_commute)

lemma holdings_no_symbol:
  assumes "n \<notin> name ` set (symbols s)"
  shows "filter (\<lambda>r. fst r = n) (holdings_rows s uid) = []"
  using assms by (auto simp: holdings_rows_def filter_empty_conv)

lemma get_current_holdings_symbol:
  assumes "distinct (map name (symbols s))" and "y \<in> set (symbols s)"
  shows "get_current_holdings s uid (name y) =
           (if \<exists>t \<in> set (transactions s). tx_user_id t = uid \<and> tx_symbol_id t = symbol_id y
            then Some (sum_list (map quantity
                        (filter (\<lambda>t. tx_user_id t = uid \<and> tx_symbol_id t = symbol_id y)
                           (transactions s))))
            else None)"
proof -
  let ?txs = "filter (\<lambda>t. tx_user_id t = uid \<and> tx_symbol_id t = symbol_id y) (transactions s)"
  let ?rows = "filter (\<lambda>r. fst r = name y) (holdings_rows s uid)"
  have m: "map snd ?rows = map quantity ?txs"
    using assms by (rule holdings_of_symbol)
  have "length ?rows = length ?txs"
    using arg_cong [OF m, of length] by simp
  then have e: "(?rows = []) = (?txs = [])"
    by auto
  have x: "(\<exists>t \<in> set (transactions s). tx_user_id t = uid \<and> tx_symbol_id t = symbol_id y) = (?txs \<noteq> [])"
    by (auto simp: filter_empty_conv)
  show ?thesis
    unfolding get_current_holdings_lookup m e x by simp
qed

text \<open>
  C6. Symbol names are unique (the column is declared so). For every user and every
  symbol of the table, \<open>get_current_holdings\<close> maps the symbol's name to the sum of the
  quantities, with their signs, of all the user's transactions in that symbol, whatever
  their sign; the name is a key as soon as the user has one transaction in the symbol,
  also when the sum is 0; a name that is no symbol's is not a key.
\<close>

theorem current_holdings_signed_sum:
  assumes "distinct (map name (symbols s))" and "y \<in> set (symbols s)"
  shows "get_current_holdings s uid (name y) =
           (if \<exists>t \<in> set (transactions s). tx_user_id t = uid \<and> tx_symbol_id t = symbol_id y
            then Some (sum_list (map quantity
                        (filter (\<lambda>t. tx_user_id t = uid \<and> tx_symbol_id t = symbol_id y)
                           (transactions s))))
            else None)
         \<and> (n \<notin> name ` set (symbols s) \<longrightarrow> get_current_holdings s uid n = None)"
  using get_current_holdings_symbol [OF assms] holdings_no_symbol [of n s uid]
  by (simp add: get_current_holdings_lookup)

theorem current_holdings_examples:
  "get_current_holdings flat_session 1 ''AAPL'' = Some 0 \<and>
   get_current_holdings flat_session 1 ''bitcoin'' = None \<and>
   get_current_holdings flat_session 1 ''MSFT'' = None \<and>
   get_current_holdings scenario1 1 ''AAPL'' = Some 6"
proof -
  let ?aapl = "\<lparr>symbol_id = 1, name = ''AAPL'', symbol_type = ''stock''\<rparr>"
  let ?btc = "\<lparr>symbol_id = 2, name = ''bitcoin'', symbol_type = ''crypto''\<rparr>"
  have d: "distinct (map name (symbols flat_session))" "distinct (map name (symbols scenario1))"
    by (simp_all add: flat_session_def scenario1_def)
  have a: "?aapl \<in> set (symbols flat_session)" "?btc \<in> set (symbols flat_session)"
      "?aapl \<in> set (symbols scenario1)"
    by (simp_all add: flat_session_def scenario1_def)
  from current_holdings_signed_sum [OF d(1) a(1), of 1]
  have one: "get_current_holdings flat_session 1 ''AAPL'' = Some 0"
    by (simp add: flat_session_def)
  from current_holdings_signed_sum [OF d(1) a(2), of 1]
  have two: "get_current_holdings flat_session 1 ''bitcoin'' = None"
    by (simp add: flat_session_def)
  from current_holdings_signed_sum [OF d(2) a(3), of 1]
  have three: "get_current_holdings scenario1 1 ''AAPL'' = Some 6"
    by (simp add: scenario1_def)
  from current_holdings_signed_sum [OF d(1) a(1), where uid = 1 and n = "''MSFT''"]
  have four: "get_current_holdings flat_session 1 ''MSFT'' = None"
    by (simp add: flat_session_def)
  from one two three four show ?thesis by simp
qed

text \<open>
  With the sums read as exact, the cost basis and the holdings are the same for every
  permutation of the transaction list.
\<close>

lemma sum_list_mset_cong:
  fixes f :: "'a \<Rightarrow> real"
  assumes "mset xs = mset ys"
  shows "sum_list (map f xs) = sum_list (map f ys)"
proof -
  have "sum_list (map f xs) = sum_mset (image_mset f (mset xs))"
    by (simp add: sum_mset_sum_list [symmetric])
  also have "\<dots> = sum_mset (image_mset f (mset ys))"
    by (simp only: assms)
  also have "\<dots> = sum_list (map f ys)"
    by (simp add: sum_mset_sum_list [symmetric])
  finally show ?thesis .
qed

lemma mset_eq_Nil_iff:
  assumes "mset xs = mset ys"
  shows "(xs = []) = (ys = [])"
  using mset_eq_length [OF assms] by auto

lemma mset_acquisitions:
  assumes "mset (transactions s') = mset (transactions s)"
  shows "mset (acquisitions s' uid sid) = mset (acquisitions s uid sid)"
  unfolding acquisitions_def by (simp add: assms)

lemma cost_basis_permutation:
  assumes "mset (transactions s') = mset (transactions s)"
  shows "calculate_average_cost_basis s' uid sid = calculate_average_cost_basis s uid sid"
proof -
  note m = mset_acquisitions [OF assms, of uid sid]
  show ?thesis
    unfolding calculate_average_cost_basis_sums
    by (simp only: mset_eq_Nil_iff [OF m] sum_list_mset_cong [OF m])
qed

lemma cost_basis_quantity_price_multiset:
  assumes "image_mset (\<lambda>t. (quantity t, price t))
             (mset (filter (\<lambda>t. tx_user_id t = uid \<and> tx_symbol_id t = sid) (transactions s'))) =
           image_mset (\<lambda>t. (quantity t, price t))
             (mset (filter (\<lambda>t. tx_user_id t = uid \<and> tx_symbol_id t = sid) (transactions s)))"
  shows "calculate_average_cost_basis s' uid sid = calculate_average_cost_basis s uid sid"
proof -
  let ?qp = "\<lambda>t. (quantity t, price t)"
  have acq: "\<And>s. mset (map ?qp (acquisitions s uid sid)) =
      filter_mset (\<lambda>(q, p). q > 0)
        (image_mset ?qp (mset (filter (\<lambda>t. tx_user_id t = uid \<and> tx_symbol_id t = sid) (transactions s))))"
    unfolding acquisitions_def by (simp add: filter_mset_image_mset filter_filter_mset conj_commute)
  have m: "mset (map ?qp (acquisitions s' uid sid)) = mset (map ?qp (acquisitions s uid sid))"
    unfolding acq by (simp only: assms)
  have cost: "\<And>s. sum_list (map (\<lambda>t. quantity t * price t) (acquisitions s uid sid)) =
              sum_list (map (\<lambda>(q, p). q * p) (map ?qp (acquisitions s uid sid)))"
    by (simp add: comp_def)
  have qty: "\<And>s. sum_list (map quantity (acquisitions s uid sid)) =
              sum_list (map fst (map ?qp (acquisitions s uid sid)))"
    by (simp add: comp_def)
  have e: "\<And>s. (acquisitions s uid sid = []) = (map ?qp (acquisitions s uid sid) = [])"
    by simp
  show ?thesis
    unfolding calculate_average_cost_basis_sums cost qty e
    by (simp only: mset_eq_Nil_iff [OF m] sum_list_mset_cong [OF m])
qed

lemma cost_basis_append_disposal:
  assumes "quantity t \<le> 0"
  shows "calculate_average_cost_basis (s\<lparr>transactions := transactions s @ [t]\<rparr>) uid sid =
         calculate_average_cost_basis s uid sid"
proof -
  from assms have "acquisitions (s\<lparr>transactions := transactions s @ [t]\<rparr>) uid sid =
        acquisitions s uid sid"
    by (simp add: acquisitions_def)
  then show ?thesis
    unfolding calculate_average_cost_basis_sums by simp
qed

lemma mset_concat_map_cong:
  assumes "mset xs = mset ys"
  shows "mset (concat (map f xs)) = mset (concat (map f ys))"
proof -
  have "\<And>zs. mset (concat (map f zs)) = sum_mset (image_mset (\<lambda>z. mset (f z)) (mset zs))"
    by (simp add: mset_concat sum_mset_sum_list [symmetric] comp_def)
  then show ?thesis by (simp only: assms)
qed

lemma mset_holdings_rows:
  assumes "mset (transactions s') = mset (transactions s)" and "symbols s' = symbols s"
  shows "mset (holdings_rows s' uid) = mset (holdings_rows s uid)"
  unfolding holdings_rows_def assms(2)
  by (rule mset_concat_map_cong) (simp add: assms(1))

lemma holdings_permutation:
  assumes "mset (transactions s') = mset (transactions s)" and "symbols s' = symbols s"
  shows "get_current_holdings s' uid = get_current_holdings s uid"
proof
  fix n
  have m: "mset (filter (\<lambda>r. fst r = n) (holdings_rows s' uid)) =
           mset (filter (\<lambda>r. fst r = n) (holdings_rows s uid))"
    by (simp add: mset_holdings_rows [OF assms])
  show "get_current_holdings s' uid n = get_current_holdings s uid n"
    unfolding get_current_holdings_lookup
    by (simp only: mset_eq_Nil_iff [OF m] sum_list_mset_cong [OF m])
qed

subsection \<open>Cost basis in binary64: the order of the acquisitions\<close>









subsection \<open>Forex aggregation: the loop adds up the quotes\<close>

lemma and_then_simps: "and_then (Inr v) f = f v" "and_then (Inl e) f = Inl e"
  by (simp_all add: and_then_def)

lemma fetch_forex_rate_known:
  assumes "k \<in> fst ` set cfg"
  shows "fetch_forex_rate cfg net k base target = Inr (fetched cfg net base target k)"
proof -
  from assms obtain config where "map_of cfg k = Some config"
    by (metis map_of_eq_None_iff not_Some_eq)
  then show ?thesis
    by (simp add: fetched_def fetch_forex_rate_def)
qed

lemma forex_loop_step_none:
  assumes "k \<in> fst ` set cfg" and "fetched cfg net base target k = PyNone"
  shows "forex_loop cfg net base target ((k, info) # rest) (a, b) =
         forex_loop cfg net base target rest (a, b)"
  using assms by (simp add: fetch_forex_rate_known and_then_def)

lemma forex_loop_step_number:
  assumes "k \<in> fst ` set cfg" and "as_number (fetched cfg net base target k) = Some r"
  shows "forex_loop cfg net base target ((k, info) # rest) (a, b) =
         forex_loop cfg net base target rest (a + r * weight info, b + weight info)"
proof -
  from assms(2) have "fetched cfg net base target k \<noteq> PyNone" by auto
  with assms show ?thesis
    by (simp add: fetch_forex_rate_known and_then_def mul_float_def)
qed

lemma quotes_Cons_none:
  "as_number (fetched cfg net base target k) = None \<Longrightarrow>
   quotes cfg net base target ((k, info) # rest) = quotes cfg net base target rest"
  by (simp add: quotes_def)

lemma quotes_Cons_number:
  "as_number (fetched cfg net base target k) = Some r \<Longrightarrow>
   quotes cfg net base target ((k, info) # rest) = (r, weight info) # quotes cfg net base target rest"
  by (simp add: quotes_def)

lemma forex_loop_quotes:
  assumes "\<forall>k \<in> fst ` set items. k \<in> fst ` set cfg \<and> rate_or_none (fetched cfg net base target k)"
  shows "forex_loop cfg net base target items (a, b) =
         Inr (a + sum_list (map (\<lambda>(r, w). r * w) (quotes cfg net base target items)),
              b + sum_list (map snd (quotes cfg net base target items)))"
  using assms
proof (induction items arbitrary: a b)
  case Nil
  show ?case by (simp add: quotes_def)
next
  case (Cons item items)
  obtain k info where item: "item = (k, info)" by (cases item)
  from Cons.prems item have k: "k \<in> fst ` set cfg" and ok: "rate_or_none (fetched cfg net base target k)"
    by auto
  from Cons.prems have rest: "\<forall>k \<in> fst ` set items. k \<in> fst ` set cfg \<and> rate_or_none (fetched cfg net base target k)"
    by auto
  show ?case
  proof (cases "as_number (fetched cfg net base target k)")
    case None
    with ok have "fetched cfg net base target k = PyNone" by (simp add: rate_or_none_def)
    with k None rest show ?thesis
      unfolding item by (simp only: forex_loop_step_none quotes_Cons_none Cons.IH)
  next
    case (Some r)
    with k rest show ?thesis
      unfolding item by (simp add: forex_loop_step_number quotes_Cons_number Cons.IH del: forex_loop.simps)
  qed
qed

lemma quotes_weights_pos:
  assumes "\<forall>(k, info) \<in> set items. weight info > 0"
  shows "\<forall>(r, w) \<in> set (quotes cfg net base target items). w > 0"
  using assms by (auto simp: quotes_def split: option.splits)

lemma quotes_nonempty:
  assumes "\<exists>k \<in> fst ` set items. as_number (fetched cfg net base target k) \<noteq> None"
  shows "quotes cfg net base target items \<noteq> []"
  using assms by (fastforce simp: quotes_def split: option.splits)

lemma sum_weights_pos:
  assumes "\<forall>(r, w) \<in> set qs. w > (0::real)" and "qs \<noteq> []"
  shows "sum_list (map snd qs) > 0"
  using assms
proof (induction qs)
  case Nil
  then show ?case by simp
next
  case (Cons q qs)
  then show ?case
  proof (cases "qs = []")
    case True
    with Cons.prems show ?thesis by auto
  next
    case False
    with Cons have "sum_list (map snd qs) > 0" by auto
    moreover from Cons.prems have "snd q > 0" by auto
    ultimately show ?thesis by simp
  qed
qed

lemma get_advanced_forex_rate_quotes:
  assumes "\<forall>(k, info) \<in> set cfg. weight info > 0"
    and "\<forall>k \<in> fst ` set cfg. rate_or_none (fetched cfg net base target k)"
    and "\<exists>k \<in> fst ` set cfg. fetched cfg net base target k \<noteq> PyNone"
  shows "get_advanced_forex_rate cfg net base target =
           Inr (Some (sum_list (map (\<lambda>(rate, w). rate * w) (quotes cfg net base target cfg))
                      / sum_list (map snd (quotes cfg net base target cfg))))"
proof -
  have loop: "forex_loop cfg net base target cfg (0, 0) =
         Inr (sum_list (map (\<lambda>(r, w). r * w) (quotes cfg net base target cfg)),
              sum_list (map snd (quotes cfg net base target cfg)))"
    using forex_loop_quotes [of cfg cfg net base target 0 0] assms(2) by simp
  from assms(2,3) have "\<exists>k \<in> fst ` set cfg. as_number (fetched cfg net base target k) \<noteq> None"
    unfolding rate_or_none_def by blast
  then have "quotes cfg net base target cfg \<noteq> []"
    by (rule quotes_nonempty)
  then have "sum_list (map snd (quotes cfg net base target cfg)) > 0"
    using sum_weights_pos quotes_weights_pos [OF assms(1)] by blast
  then show ?thesis
    unfolding get_advanced_forex_rate_def loop by (simp add: and_then_def)
qed

lemma weighted_sum_between:
  assumes "\<forall>(r, w) \<in> set qs. lo \<le> r \<and> r \<le> hi \<and> w > (0::real)"
  shows "lo * sum_list (map snd qs) \<le> sum_list (map (\<lambda>(r, w). r * w) qs) \<and>
         sum_list (map (\<lambda>(r, w). r * w) qs) \<le> hi * sum_list (map snd qs)"
  using assms
proof (induction qs)
  case Nil
  show ?case by simp
next
  case (Cons q qs)
  obtain r w where q: "q = (r, w)" by (cases q)
  from Cons.prems q have r: "lo \<le> r" "r \<le> hi" and w: "w > 0" by auto
  from Cons have IH: "lo * sum_list (map snd qs) \<le> sum_list (map (\<lambda>(r, w). r * w) qs)"
      "sum_list (map (\<lambda>(r, w). r * w) qs) \<le> hi * sum_list (map snd qs)" by auto
  from r w have "lo * w \<le> r * w" "r * w \<le> hi * w"
    by (simp_all add: mult_right_mono)
  with IH show ?case unfolding q by (simp add: distrib_left)
qed

lemma weighted_mean_between:
  assumes "\<forall>(r, w) \<in> set qs. w > (0::real)" and "qs \<noteq> []"
  shows "Min (fst ` set qs) \<le> sum_list (map (\<lambda>(r, w). r * w) qs) / sum_list (map snd qs) \<and>
         sum_list (map (\<lambda>(r, w). r * w) qs) / sum_list (map snd qs) \<le> Max (fst ` set qs)"
proof -
  have pos: "sum_list (map snd qs) > 0"
    using sum_weights_pos assms by blast
  have "\<forall>(r, w) \<in> set qs. Min (fst ` set qs) \<le> r \<and> r \<le> Max (fst ` set qs) \<and> w > 0"
    using assms(1) by (auto intro!: Min_le Max_ge simp: rev_image_eqI)
  from weighted_sum_between [OF this] pos show ?thesis
    by (simp add: pos_le_divide_eq pos_divide_le_eq)
qed

lemma scenario2_fetched:
  "fetched scenario2_config scenario2_net ''USD'' ''EUR'' ''EXCHANGERATE_HOST'' = PyNum 1.10"
  "fetched scenario2_config scenario2_net ''USD'' ''EUR'' ''EXCHANGERATE_API'' = PyNum 1.12"
  "fetched scenario2_config scenario2_net ''USD'' ''EUR'' ''OPEN_EXCHANGE_RATES'' = PyNone"
  by (simp_all add: fetched_def fetch_forex_rate_def fetch_forex_rate_try_def scenario2_config_def
      scenario2_net_def and_then_def requests_get_def response_json_def endswith_def)

lemma quotes_Nil: "quotes cfg net base target [] = []"
  by (simp add: quotes_def)

lemma quotes_Cons:
  "quotes cfg net base target ((k, info) # rest) =
     (case as_number (fetched cfg net base target k) of None \<Rightarrow> [] | Some r \<Rightarrow> [(r, weight info)])
     @ quotes cfg net base target rest"
  by (simp add: quotes_def)

lemma rate_or_none_simps: "rate_or_none PyNone" "rate_or_none (PyNum x)" "rate_or_none (PyBool b)"
  by (simp_all add: rate_or_none_def)

lemma scenario2_quotes:
  "quotes scenario2_config scenario2_net ''USD'' ''EUR'' scenario2_config = [(1.10, 1.0), (1.12, 0.5)]"
proof -
  have "quotes scenario2_config scenario2_net ''USD'' ''EUR''
          [(''EXCHANGERATE_HOST'', \<lparr>url = ''https://a.test/latest'', weight = 1.0\<rparr>),
           (''EXCHANGERATE_API'', \<lparr>url = ''https://b.test/latest'', weight = 0.5\<rparr>),
           (''OPEN_EXCHANGE_RATES'', \<lparr>url = ''https://c.test/latest.json'', weight = 0.9\<rparr>)]
        = [(1.10, 1.0), (1.12, 0.5)]"
    by (simp add: quotes_Cons quotes_Nil scenario2_fetched)
  then show ?thesis
    by (subst (2) scenario2_config_def)
qed

text \<open>
  Scenario 2 of the specification with the sums read as exact.
\<close>

lemma scenario2_exact_mean:
  "get_advanced_forex_rate scenario2_config scenario2_net ''USD'' ''EUR'' =
     Inr (Some ((1.10 * 1.0 + 1.12 * 0.5) / 1.5))"
proof -
  have w: "\<forall>(k, info) \<in> set scenario2_config. weight info > 0"
    by (simp add: scenario2_config_def)
  have ok: "\<forall>k \<in> fst ` set scenario2_config. rate_or_none (fetched scenario2_config scenario2_net ''USD'' ''EUR'' k)"
    by (simp add: scenario2_config_def [THEN arg_cong [where f = set]] scenario2_fetched rate_or_none_simps)
  have ex: "\<exists>k \<in> fst ` set scenario2_config. fetched scenario2_config scenario2_net ''USD'' ''EUR'' k \<noteq> PyNone"
    by (simp add: scenario2_config_def [THEN arg_cong [where f = set]] scenario2_fetched)
  from get_advanced_forex_rate_quotes [OF w ok ex] show ?thesis
    unfolding scenario2_quotes by simp
qed

subsection \<open>The cross rate of the third provider\<close>

lemma fetch_forex_rate_try_open_exchange_rates:
  "fetch_forex_rate_try net ''OPEN_EXCHANGE_RATES'' u base target =
     and_then (requests_get net u []) (\<lambda>r.
     and_then (response_json r) (\<lambda>data.
     and_then (getitem data ''rates'') (\<lambda>rates.
     if base = ''USD'' then dict_get rates target
     else
       and_then (contains rates base) (\<lambda>has_base.
       if has_base then
         and_then (contains rates target) (\<lambda>has_target.
         if has_target then
           and_then (getitem rates target) (\<lambda>x.
           and_then (getitem rates base) (\<lambda>y.
           truediv x y))
         else Inr PyNone)
       else Inr PyNone))))"
  by (simp add: fetch_forex_rate_try_def)

lemma cross_rate_only_if:
  assumes "and_then (contains rates base) (\<lambda>has_base.
       if has_base then
         and_then (contains rates target) (\<lambda>has_target.
         if has_target then
           and_then (getitem rates target) (\<lambda>x.
           and_then (getitem rates base) (\<lambda>y.
           truediv x y))
         else Inr PyNone)
       else Inr PyNone) = Inr v" and "v \<noteq> PyNone"
  shows "\<exists>tbl x y rx ry. rates = PyDict tbl \<and> map_of tbl target = Some x \<and> map_of tbl base = Some y \<and>
           as_number x = Some rx \<and> as_number y = Some ry \<and> ry \<noteq> 0 \<and> v = PyNum (rx / ry)"
  using assms
  by (cases rates) (auto simp: and_then_def truediv_def split: option.splits if_splits)

lemma cross_rate_missing_leg:
  assumes "map_of tbl base = None \<or> map_of tbl target = None"
  shows "and_then (contains (PyDict tbl) base) (\<lambda>has_base.
       if has_base then
         and_then (contains (PyDict tbl) target) (\<lambda>has_target.
         if has_target then
           and_then (getitem (PyDict tbl) target) (\<lambda>x.
           and_then (getitem (PyDict tbl) base) (\<lambda>y.
           truediv x y))
         else Inr PyNone)
       else Inr PyNone) = Inr PyNone"
  using assms by (auto simp: and_then_def)

lemma cross_rate_both_legs:
  assumes "map_of tbl target = Some x" and "map_of tbl base = Some y"
  shows "and_then (contains (PyDict tbl) base) (\<lambda>has_base.
       if has_base then
         and_then (contains (PyDict tbl) target) (\<lambda>has_target.
         if has_target then
           and_then (getitem (PyDict tbl) target) (\<lambda>x.
           and_then (getitem (PyDict tbl) base) (\<lambda>y.
           truediv x y))
         else Inr PyNone)
       else Inr PyNone) = truediv x y"
  using assms by (auto simp: and_then_def)

text \<open>
  C7. For the provider key \<open>OPEN_EXCHANGE_RATES\<close> and a base other than USD: a quote is
  returned only when the response's rate table has both the target and the base, and the
  quote is then the target's rate divided by the base's; when either is missing the
  provider returns nothing; when both are numbers and the base's is not zero the quote is
  returned.
\<close>

theorem open_exchange_rates_cross_rate:
  assumes "map_of cfg ''OPEN_EXCHANGE_RATES'' = Some info" and "base \<noteq> ''USD''"
  shows "(fetch_forex_rate cfg net ''OPEN_EXCHANGE_RATES'' base target = Inr v \<and> v \<noteq> PyNone \<longrightarrow>
            (\<exists>data tbl x y rx ry.
               net (url info) [] = Some (Response (Some data)) \<and>
               getitem data ''rates'' = Inr (PyDict tbl) \<and>
               map_of tbl target = Some x \<and> map_of tbl base = Some y \<and>
               as_number x = Some rx \<and> as_number y = Some ry \<and> ry \<noteq> 0 \<and>
               v = PyNum (rx / ry)))
       \<and> (net (url info) [] = Some (Response (Some data')) \<and>
          getitem data' ''rates'' = Inr (PyDict tbl') \<and>
          (map_of tbl' base = None \<or> map_of tbl' target = None) \<longrightarrow>
            fetch_forex_rate cfg net ''OPEN_EXCHANGE_RATES'' base target = Inr PyNone)
       \<and> (net (url info) [] = Some (Response (Some data')) \<and>
          getitem data' ''rates'' = Inr (PyDict tbl') \<and>
          map_of tbl' target = Some (PyNum a) \<and> map_of tbl' base = Some (PyNum b) \<and> b \<noteq> 0 \<longrightarrow>
            fetch_forex_rate cfg net ''OPEN_EXCHANGE_RATES'' base target = Inr (PyNum (a / b)))"
proof (intro conjI impI)
  assume a: "fetch_forex_rate cfg net ''OPEN_EXCHANGE_RATES'' base target = Inr v \<and> v \<noteq> PyNone"
  then have blk: "fetch_forex_rate_try net ''OPEN_EXCHANGE_RATES'' (url info) base target = Inr v"
    using assms(1) by (auto simp: fetch_forex_rate_def split: sum.splits)
  from a have v: "v \<noteq> PyNone" by simp
  from blk obtain r where r: "net (url info) [] = Some r"
    unfolding fetch_forex_rate_try_open_exchange_rates
    by (cases "net (url info) []") (auto simp: and_then_def requests_get_def)
  from blk r obtain data where d: "body_json r = Some data"
    unfolding fetch_forex_rate_try_open_exchange_rates
    by (cases "body_json r") (auto simp: and_then_def requests_get_def response_json_def)
  from blk r d obtain rates where rt: "getitem data ''rates'' = Inr rates"
    unfolding fetch_forex_rate_try_open_exchange_rates
    by (cases "getitem data ''rates''") (auto simp: and_then_def requests_get_def response_json_def)
  from d have r': "r = Response (Some data)" by (cases r) simp
  from blk r d rt assms(2) have "and_then (contains rates base) (\<lambda>has_base.
       if has_base then
         and_then (contains rates target) (\<lambda>has_target.
         if has_target then
           and_then (getitem rates target) (\<lambda>x.
           and_then (getitem rates base) (\<lambda>y.
           truediv x y))
         else Inr PyNone)
       else Inr PyNone) = Inr v"
    unfolding fetch_forex_rate_try_open_exchange_rates
    by (simp add: and_then_simps requests_get_def response_json_def)
  from cross_rate_only_if [OF this v] r r' rt
  show "\<exists>data tbl x y rx ry.
               net (url info) [] = Some (Response (Some data)) \<and>
               getitem data ''rates'' = Inr (PyDict tbl) \<and>
               map_of tbl target = Some x \<and> map_of tbl base = Some y \<and>
               as_number x = Some rx \<and> as_number y = Some ry \<and> ry \<noteq> 0 \<and>
               v = PyNum (rx / ry)"
    by blast
next
  assume a: "net (url info) [] = Some (Response (Some data')) \<and>
          getitem data' ''rates'' = Inr (PyDict tbl') \<and>
          (map_of tbl' base = None \<or> map_of tbl' target = None)"
  then have "fetch_forex_rate_try net ''OPEN_EXCHANGE_RATES'' (url info) base target = Inr PyNone"
    unfolding fetch_forex_rate_try_open_exchange_rates using assms(2) cross_rate_missing_leg [of tbl' base target]
    by (simp add: and_then_simps requests_get_def response_json_def)
  then show "fetch_forex_rate cfg net ''OPEN_EXCHANGE_RATES'' base target = Inr PyNone"
    using assms(1) by (simp add: fetch_forex_rate_def)
next
  assume a: "net (url info) [] = Some (Response (Some data')) \<and>
          getitem data' ''rates'' = Inr (PyDict tbl') \<and>
          map_of tbl' target = Some (PyNum a) \<and> map_of tbl' base = Some (PyNum b) \<and> b \<noteq> 0"
  then have "fetch_forex_rate_try net ''OPEN_EXCHANGE_RATES'' (url info) base target = truediv (PyNum a) (PyNum b)"
    unfolding fetch_forex_rate_try_open_exchange_rates using assms(2) cross_rate_both_legs [of tbl' target "PyNum a" base "PyNum b"]
    by (simp add: and_then_simps requests_get_def response_json_def)
  with a show "fetch_forex_rate cfg net ''OPEN_EXCHANGE_RATES'' base target = Inr (PyNum (a / b))"
    using assms(1) by (simp add: fetch_forex_rate_def truediv_def)
qed

theorem open_exchange_rates_cross_rate_gbp_eur:
  "fetch_forex_rate PROVIDER_CONFIG gbp_eur_net ''OPEN_EXCHANGE_RATES'' ''GBP'' ''EUR''
     = Inr (PyNum (0.92 / 0.8)) \<and>
   fetch_forex_rate PROVIDER_CONFIG gbp_eur_net ''OPEN_EXCHANGE_RATES'' ''CHF'' ''EUR''
     = Inr PyNone \<and>
   (\<exists>tbl. gbp_eur_net ''https://openexchangerates.org/api/latest.json?app_id=YOUR_APP_ID'' []
            = Some (Response (Some (PyDict [(''rates'', PyDict tbl)]))) \<and>
          map_of tbl ''EUR'' = Some (PyNum 0.92) \<and> map_of tbl ''GBP'' = Some (PyNum 0.8) \<and>
          map_of tbl ''CHF'' = None)"
proof -
  let ?info = "\<lparr>url = ''https://openexchangerates.org/api/latest.json?app_id=YOUR_APP_ID'', weight = 0.9\<rparr>"
  let ?tbl = "[(''GBP'', PyNum 0.8), (''EUR'', PyNum 0.92)]"
  let ?data = "PyDict [(''rates'', PyDict ?tbl)]"
  have cfg: "map_of PROVIDER_CONFIG ''OPEN_EXCHANGE_RATES'' = Some ?info"
    by (simp add: PROVIDER_CONFIG_def)
  have net: "gbp_eur_net (url ?info) [] = Some (Response (Some ?data))"
    by (simp add: gbp_eur_net_def)
  have rates: "getitem ?data ''rates'' = Inr (PyDict ?tbl)"
    by simp
  have gbp: "''GBP'' \<noteq> ''USD''" and chf: "''CHF'' \<noteq> ''USD''"
    by simp_all
  from open_exchange_rates_cross_rate
         [where cfg = PROVIDER_CONFIG and info = ?info and base = "''GBP''" and net = gbp_eur_net
            and target = "''EUR''" and data' = ?data and tbl' = ?tbl and a = "0.92" and b = "0.8",
          OF cfg gbp] net rates
  have one: "fetch_forex_rate PROVIDER_CONFIG gbp_eur_net ''OPEN_EXCHANGE_RATES'' ''GBP'' ''EUR''
     = Inr (PyNum (0.92 / 0.8))"
    by simp
  from open_exchange_rates_cross_rate
         [where cfg = PROVIDER_CONFIG and info = ?info and base = "''CHF''" and net = gbp_eur_net
            and target = "''EUR''" and data' = ?data and tbl' = ?tbl,
          OF cfg chf] net rates
  have two: "fetch_forex_rate PROVIDER_CONFIG gbp_eur_net ''OPEN_EXCHANGE_RATES'' ''CHF'' ''EUR''
     = Inr PyNone"
    by simp
  from net have three: "\<exists>tbl. gbp_eur_net ''https://openexchangerates.org/api/latest.json?app_id=YOUR_APP_ID'' []
            = Some (Response (Some (PyDict [(''rates'', PyDict tbl)]))) \<and>
          map_of tbl ''EUR'' = Some (PyNum 0.92) \<and> map_of tbl ''GBP'' = Some (PyNum 0.8) \<and>
          map_of tbl ''CHF'' = None"
    by simp
  from one two three show ?thesis by blast
qed

subsection \<open>A failing provider contributes nothing\<close>

lemma no_quote_simps: "no_quote (Inl e)" "no_quote (Inr v) = (v = PyNone)"
  by (simp_all add: no_quote_def)

lemma host_rates_missing:
  assumes "\<not> has_rate data ''rates'' target"
  shows "no_quote (and_then (getitem data ''rates'') (\<lambda>rates. getitem rates target))"
proof (cases "getitem data ''rates''")
  case (Inl e)
  then show ?thesis by (simp add: and_then_simps no_quote_simps)
next
  case (Inr rates)
  with assms show ?thesis
    by (cases rates) (auto simp: and_then_simps no_quote_simps has_rate_def split: option.splits)
qed

lemma api_rates_missing:
  assumes "\<not> has_rate data ''conversion_rates'' target"
  shows "no_quote (and_then (getitem data ''conversion_rates'')
                     (\<lambda>conversion_rates. dict_get conversion_rates target))"
proof (cases "getitem data ''conversion_rates''")
  case (Inl e)
  then show ?thesis by (simp add: and_then_simps no_quote_simps)
next
  case (Inr rates)
  with assms show ?thesis
    by (cases rates) (auto simp: and_then_simps no_quote_simps has_rate_def split: option.splits)
qed

lemma cross_rate_missing_target:
  assumes "\<forall>tbl. rates = PyDict tbl \<longrightarrow> map_of tbl target = None"
  shows "no_quote (and_then (contains rates base) (\<lambda>has_base.
       if has_base then
         and_then (contains rates target) (\<lambda>has_target.
         if has_target then
           and_then (getitem rates target) (\<lambda>x.
           and_then (getitem rates base) (\<lambda>y.
           truediv x y))
         else Inr PyNone)
       else Inr PyNone))"
  using assms by (cases rates) (auto simp: and_then_simps no_quote_simps)

lemma open_rates_missing:
  assumes "\<not> has_rate data ''rates'' target"
  shows "no_quote (and_then (getitem data ''rates'') (\<lambda>rates.
     if base = ''USD'' then dict_get rates target
     else
       and_then (contains rates base) (\<lambda>has_base.
       if has_base then
         and_then (contains rates target) (\<lambda>has_target.
         if has_target then
           and_then (getitem rates target) (\<lambda>x.
           and_then (getitem rates base) (\<lambda>y.
           truediv x y))
         else Inr PyNone)
       else Inr PyNone)))"
proof (cases "getitem data ''rates''")
  case (Inl e)
  then show ?thesis by (simp add: and_then_simps no_quote_simps)
next
  case (Inr rates)
  with assms have miss: "\<forall>tbl. rates = PyDict tbl \<longrightarrow> map_of tbl target = None"
    by (auto simp: has_rate_def)
  show ?thesis
  proof (cases "base = ''USD''")
    case True
    with Inr miss show ?thesis
      by (cases rates) (auto simp: and_then_simps no_quote_simps)
  next
    case False
    with Inr cross_rate_missing_target [OF miss] show ?thesis
      by (simp add: and_then_simps)
  qed
qed

lemma request_without_rate:
  assumes "response_without_rate (net u ps) target"
    and "\<And>data. \<not> has_rate data ''rates'' target \<Longrightarrow> \<not> has_rate data ''conversion_rates'' target
           \<Longrightarrow> no_quote (f data)"
  shows "no_quote (and_then (requests_get net u ps) (\<lambda>r. and_then (response_json r) f))"
proof (cases "net u ps")
  case None
  then show ?thesis by (simp add: requests_get_def and_then_simps no_quote_simps)
next
  case (Some r)
  show ?thesis
  proof (cases "body_json r")
    case None
    with Some show ?thesis
      by (simp add: requests_get_def response_json_def and_then_simps no_quote_simps)
  next
    case (Some data)
    with \<open>net u ps = Some r\<close> assms(1)
    have "\<not> has_rate data ''rates'' target" "\<not> has_rate data ''conversion_rates'' target"
      by (simp_all add: response_without_rate_def)
    then have "no_quote (f data)" by (rule assms(2))
    with Some \<open>net u ps = Some r\<close> show ?thesis
      by (simp add: requests_get_def response_json_def and_then_simps)
  qed
qed

lemma fetch_forex_rate_try_without_rate:
  assumes "\<forall>suffix ps. response_without_rate (net (u @ suffix) ps) target"
  shows "no_quote (fetch_forex_rate_try net provider_key u base target)"
proof -
  from assms have plain: "\<And>ps. response_without_rate (net u ps) target"
    by (metis append_Nil2)
  have api: "\<And>ps. response_without_rate
                (net ((if endswith u ''/'' then u else u @ ''/'') @ base) ps) target"
    using assms by simp
  have host: "no_quote (and_then (requests_get net u [(''base'', base), (''symbols'', target)]) (\<lambda>r.
        and_then (response_json r) (\<lambda>data.
        and_then (getitem data ''rates'') (\<lambda>rates.
        getitem rates target))))"
    by (rule request_without_rate, rule plain, rule host_rates_missing)
  have exapi: "no_quote (and_then (requests_get net ((if endswith u ''/'' then u else u @ ''/'') @ base) []) (\<lambda>r.
        and_then (response_json r) (\<lambda>data.
        and_then (getitem data ''conversion_rates'') (\<lambda>conversion_rates.
        dict_get conversion_rates target))))"
    by (rule request_without_rate, rule api, rule api_rates_missing)
  have oer: "no_quote (and_then (requests_get net u []) (\<lambda>r.
        and_then (response_json r) (\<lambda>data.
        and_then (getitem data ''rates'') (\<lambda>rates.
        if base = ''USD'' then dict_get rates target
        else
          and_then (contains rates base) (\<lambda>has_base.
          if has_base then
            and_then (contains rates target) (\<lambda>has_target.
            if has_target then
              and_then (getitem rates target) (\<lambda>x.
              and_then (getitem rates base) (\<lambda>y.
              truediv x y))
            else Inr PyNone)
          else Inr PyNone)))))"
    by (rule request_without_rate, rule plain, rule open_rates_missing)
  from host exapi oer show ?thesis
    unfolding fetch_forex_rate_try_def by (simp add: no_quote_simps)
qed

lemma fetch_forex_rate_without_rate:
  assumes "map_of cfg provider_key = Some info"
    and "\<forall>suffix ps. response_without_rate (net (url info @ suffix) ps) target"
  shows "fetch_forex_rate cfg net provider_key base target = Inr PyNone"
  using fetch_forex_rate_try_without_rate [OF assms(2), of provider_key base] assms(1)
  by (auto simp: fetch_forex_rate_def no_quote_def split: sum.splits)

lemma map_of_filter_key:
  "map_of (filter (\<lambda>(k, v). P k) xs) k = (if P k then map_of xs k else None)"
  by (induction xs) auto

lemma fetch_forex_rate_filter:
  assumes "P provider_key"
  shows "fetch_forex_rate (filter (\<lambda>(k, info). P k) cfg) net provider_key base target =
         fetch_forex_rate cfg net provider_key base target"
  using assms by (simp add: fetch_forex_rate_def map_of_filter_key)

lemma forex_loop_filter_config:
  assumes "\<forall>k \<in> fst ` set items. P k"
  shows "forex_loop (filter (\<lambda>(k, info). P k) cfg) net base target items acc =
         forex_loop cfg net base target items acc"
  using assms
proof (induction items arbitrary: acc)
  case Nil
  show ?case by simp
next
  case (Cons item items)
  obtain k info where item: "item = (k, info)" by (cases item)
  obtain a b where acc: "acc = (a, b)" by (cases acc)
  from Cons.prems item have k: "P k" by simp
  from Cons.prems have "\<forall>k \<in> fst ` set items. P k" by simp
  then have IH: "\<And>acc. forex_loop (filter (\<lambda>(k, info). P k) cfg) net base target items acc =
         forex_loop cfg net base target items acc"
    by (rule Cons.IH)
  show ?case
    unfolding item acc by (simp add: fetch_forex_rate_filter [of P, OF k] IH cong: if_cong)
qed

lemma forex_loop_skip_failed:
  assumes "\<forall>k \<in> fst ` set items. k \<in> fst ` set cfg"
  shows "forex_loop cfg net base target items acc =
         forex_loop cfg net base target
           (filter (\<lambda>(k, info). fetched cfg net base target k \<noteq> PyNone) items) acc"
  using assms
proof (induction items arbitrary: acc)
  case Nil
  show ?case by simp
next
  case (Cons item items)
  obtain k info where item: "item = (k, info)" by (cases item)
  obtain a b where acc: "acc = (a, b)" by (cases acc)
  from Cons.prems item have k: "k \<in> fst ` set cfg" by simp
  from Cons.prems have "\<forall>k \<in> fst ` set items. k \<in> fst ` set cfg" by simp
  then have IH: "\<And>acc. forex_loop cfg net base target items acc =
         forex_loop cfg net base target
           (filter (\<lambda>(k, info). fetched cfg net base target k \<noteq> PyNone) items) acc"
    by (rule Cons.IH)
  show ?case
  proof (cases "fetched cfg net base target k = PyNone")
    case True
    with k show ?thesis
      unfolding item acc by (simp add: forex_loop_step_none IH del: forex_loop.simps)
  next
    case False
    with k show ?thesis
      unfolding item acc by (simp add: fetch_forex_rate_known IH and_then_simps)
  qed
qed

lemma get_advanced_forex_rate_skip_failed:
  "get_advanced_forex_rate cfg net base target =
   get_advanced_forex_rate
     (filter (\<lambda>(k, info). fetched cfg net base target k \<noteq> PyNone) cfg) net base target"
proof -
  let ?cfg' = "filter (\<lambda>(k, info). fetched cfg net base target k \<noteq> PyNone) cfg"
  have "forex_loop cfg net base target cfg (0, 0) = forex_loop cfg net base target ?cfg' (0, 0)"
    by (rule forex_loop_skip_failed) simp
  also have "\<dots> = forex_loop ?cfg' net base target ?cfg' (0, 0)"
    by (rule forex_loop_filter_config [symmetric]) auto
  finally show ?thesis
    unfolding get_advanced_forex_rate_def by simp
qed

lemma get_advanced_forex_rate_all_failed:
  assumes "\<forall>k \<in> fst ` set cfg. fetched cfg net base target k = PyNone"
  shows "get_advanced_forex_rate cfg net base target = Inr None"
proof -
  have "filter (\<lambda>(k, info). fetched cfg net base target k \<noteq> PyNone) cfg = []"
    using assms by (auto simp: filter_empty_conv)
  then have "forex_loop cfg net base target cfg (0, 0) = Inr (0, 0)"
    using forex_loop_skip_failed [of cfg cfg net base target "(0, 0)"] by simp
  then show ?thesis
    unfolding get_advanced_forex_rate_def by (simp add: and_then_simps)
qed

text \<open>
  The bare \<^verbatim>\<open>except\<close> covers the fetch only. A payload whose rate is a string raises
  nothing there, is returned as it is, and \<^verbatim>\<open>rate * weight\<close> raises in the loop.
\<close>

lemma string_rate_raises:
  assumes "map_of cfg k = Some info" and "fetched cfg net base target k = PyStr r"
  shows "forex_loop cfg net base target ((k, info') # rest) (a, b) = Inl TypeError"
proof -
  from assms(1) have "k \<in> fst ` set cfg"
    by (metis domI dom_map_of_conv_image_fst)
  then have "fetch_forex_rate cfg net k base target = Inr (PyStr r)"
    using assms(2) by (simp add: fetch_forex_rate_known)
  then show ?thesis
    by (simp add: and_then_simps mul_float_def)
qed

subsection \<open>The error of one rounding\<close>

lemma expo_bounds:
  "x > 0 \<Longrightarrow> 2 powi (expo x) \<le> x \<and> x < 2 powi (expo x + 1)"
proof (induction x rule: expo.induct)
  case (1 x)
  show ?case
  proof (cases "x < 1")
    case True
    with "1.prems" have e: "expo x = expo (2 * x) - 1"
      by (subst expo.simps) simp
    from "1.IH"(1) "1.prems" True
    have "2 powi (expo (2 * x)) \<le> 2 * x \<and> 2 * x < 2 powi (expo (2 * x) + 1)"
      by simp
    then show ?thesis
      unfolding e by (simp add: power_int_diff power_int_add)
  next
    case False
    show ?thesis
    proof (cases "x \<ge> 2")
      case True
      with "1.prems" False have e: "expo x = expo (x / 2) + 1"
        by (subst expo.simps) simp
      from "1.IH"(2) "1.prems" False True
      have "2 powi (expo (x / 2)) \<le> x / 2 \<and> x / 2 < 2 powi (expo (x / 2) + 1)"
        by simp
      then show ?thesis
        unfolding e by (simp add: power_int_add)
    next
      case F2: False
      with "1.prems" False have "expo x = 0"
        by (subst expo.simps) simp
      with False F2 show ?thesis by simp
    qed
  qed
qed

lemma round_even_error: "\<bar>of_int (round_even y) - y\<bar> \<le> 1 / 2"
proof -
  have "of_int \<lfloor>y\<rfloor> \<le> y" "y < of_int \<lfloor>y\<rfloor> + 1"
    by linarith+
  then show ?thesis
    unfolding round_even_def Let_def by (auto simp: abs_le_iff)
qed

lemma round_double_error: "\<bar>round_double x - x\<bar> \<le> 2 powi (- 53) * \<bar>x\<bar>"
proof (cases "x = 0")
  case True
  then show ?thesis by (simp add: round_double_def)
next
  case False
  define e where "e = expo \<bar>x\<bar>"
  define q :: real where "q = 2 powi (e - 52)"
  have q: "q > 0" by (simp add: q_def)
  from False have "\<bar>x\<bar> > 0" by simp
  then have lo: "2 powi e \<le> \<bar>x\<bar>"
    unfolding e_def using expo_bounds by blast
  have r: "round_double x = of_int (round_even (x / q)) * q"
    using False by (simp add: round_double_def q_def e_def Let_def)
  have "\<bar>round_double x - x\<bar> = \<bar>of_int (round_even (x / q)) - x / q\<bar> * q"
  proof -
    have "round_double x - x = (of_int (round_even (x / q)) - x / q) * q"
      using q unfolding r by (simp add: field_simps)
    then show ?thesis using q by (simp add: abs_mult)
  qed
  also have "\<dots> \<le> (1 / 2) * q"
    using round_even_error [of "x / q"] q by (simp add: mult_right_mono)
  also have "\<dots> = 2 powi (- 53) * 2 powi e"
    unfolding q_def by (simp add: power_int_diff power_int_minus)
  also have "\<dots> \<le> 2 powi (- 53) * \<bar>x\<bar>"
    using lo by (simp add: mult_left_mono)
  finally show ?thesis .
qed

lemma unit_roundoff_pos: "unit_roundoff > 0"
  by (simp add: unit_roundoff_def)

lemma fl_error_u:
  assumes "fl x = Some y"
  shows "\<bar>y - x\<bar> \<le> unit_roundoff * \<bar>x\<bar>"
proof (cases "x = 0")
  case True
  with assms show ?thesis by (simp add: fl_def)
next
  case False
  with assms have "y = round_double x"
    by (simp add: fl_def split: if_splits)
  with round_double_error [of x] show ?thesis by (simp add: unit_roundoff_def)
qed

lemma bernoulli_product: "(u::real) \<ge> 0 \<Longrightarrow> (1 + u) ^ n * (1 - of_nat n * u) \<le> 1"
proof (induction n)
  case 0
  show ?case by simp
next
  case (Suc n)
  have "(1 + u) * (1 - of_nat (Suc n) * u) = (1 - of_nat n * u) - of_nat (Suc n) * u * u"
    by (simp add: algebra_simps)
  also have "\<dots> \<le> 1 - of_nat n * u"
    using Suc.prems by simp
  finally have "(1 + u) ^ n * ((1 + u) * (1 - of_nat (Suc n) * u)) \<le> (1 + u) ^ n * (1 - of_nat n * u)"
    using Suc.prems by (intro mult_left_mono) simp_all
  moreover have "(1 + u) ^ Suc n * (1 - of_nat (Suc n) * u) =
                 (1 + u) ^ n * ((1 + u) * (1 - of_nat (Suc n) * u))"
    by (simp only: power_Suc2 mult.assoc)
  moreover have "(1 + u) ^ n * (1 - of_nat n * u) \<le> 1"
    using Suc.prems by (rule Suc.IH)
  ultimately show ?case by linarith
qed

lemma roundoff_power_small:
  assumes "n < 2 ^ 52"
  shows "(1 + unit_roundoff) ^ n < 2"
proof -
  let ?u = unit_roundoff
  have u: "?u \<ge> 0" using unit_roundoff_pos by simp
  from assms have "n + 1 \<le> 2 ^ 52" by simp
  then have "real (n + 1) \<le> real (2 ^ 52)" by (rule of_nat_mono)
  then have "real n \<le> 2 ^ 52 - 1" by simp
  then have "real n * ?u \<le> (2 ^ 52 - 1) * ?u"
    using u by (rule mult_right_mono)
  also have "\<dots> < 1 / 2" by (simp add: unit_roundoff_def)
  finally have half: "1 - real n * ?u > 1 / 2" by simp
  have p: "(1 + ?u) ^ n > 0" using u by simp
  from bernoulli_product [OF u, of n] have "(1 + ?u) ^ n * (1 - real n * ?u) \<le> 1" .
  moreover from half p have "(1 + ?u) ^ n * (1 / 2) < (1 + ?u) ^ n * (1 - real n * ?u)"
    by (intro mult_strict_left_mono)
  ultimately show ?thesis by simp
qed

lemma rounding_slack_three: "rounding_slack 3 < 2 powi (- 49)"
  by (simp add: rounding_slack_def unit_roundoff_def Let_def power_divide)

subsection \<open>The error of the accumulated sums\<close>

text \<open>One rounded product: the number is converted, then multiplied.\<close>

lemma product_error:
  assumes "fl x = Some r" and "fmul r w = Some p" and "w > 0"
  shows "\<bar>p - x * w\<bar> \<le> ((1 + unit_roundoff)\<^sup>2 - 1) * (\<bar>x\<bar> * w)"
proof -
  let ?u = unit_roundoff
  have u: "?u > 0" by (rule unit_roundoff_pos)
  from assms(1) have r: "\<bar>r - x\<bar> \<le> ?u * \<bar>x\<bar>" by (rule fl_error_u)
  from assms(2) have p: "\<bar>p - r * w\<bar> \<le> ?u * \<bar>r * w\<bar>"
    unfolding fmul_def by (rule fl_error_u)
  from r have "\<bar>r\<bar> \<le> \<bar>x\<bar> + ?u * \<bar>x\<bar>"
    by linarith
  then have rabs: "\<bar>r\<bar> \<le> (1 + ?u) * \<bar>x\<bar>"
    by (simp add: algebra_simps)
  have "\<bar>p - x * w\<bar> \<le> \<bar>p - r * w\<bar> + \<bar>r * w - x * w\<bar>"
    by linarith
  also have "\<bar>r * w - x * w\<bar> = \<bar>r - x\<bar> * w"
    using assms(3) by (simp add: abs_mult left_diff_distrib [symmetric])
  also have "\<bar>p - r * w\<bar> + \<bar>r - x\<bar> * w \<le> ?u * (\<bar>r\<bar> * w) + (?u * \<bar>x\<bar>) * w"
    using p r assms(3) by (simp add: abs_mult add_mono mult_right_mono)
  also have "\<dots> \<le> ?u * (((1 + ?u) * \<bar>x\<bar>) * w) + (?u * \<bar>x\<bar>) * w"
    using rabs u assms(3) by (simp add: mult_left_mono mult_right_mono)
  also have "\<dots> = ((1 + ?u)\<^sup>2 - 1) * (\<bar>x\<bar> * w)"
    by (simp add: power2_eq_square algebra_simps)
  finally show ?thesis .
qed

text \<open>One rounded addition to an accumulator that carries the error factor \<open>c\<close>.\<close>

lemma accumulate_error:
  assumes "fadd a p = Some a1"
    and "\<bar>a - A\<bar> \<le> (c - 1) * SA" and "\<bar>A\<bar> \<le> SA"
    and "\<bar>p - P\<bar> \<le> (c - 1) * SP" and "\<bar>P\<bar> \<le> SP"
    and "c \<ge> 1"
  shows "\<bar>a1 - (A + P)\<bar> \<le> (c * (1 + unit_roundoff) - 1) * (SA + SP)"
proof -
  let ?u = unit_roundoff
  have u: "?u > 0" by (rule unit_roundoff_pos)
  from assms(1) have e: "\<bar>a1 - (a + p)\<bar> \<le> ?u * \<bar>a + p\<bar>"
    unfolding fadd_def by (rule fl_error_u)
  have "\<bar>a\<bar> \<le> \<bar>A\<bar> + (c - 1) * SA" using assms(2) by linarith
  with assms(3) have a: "\<bar>a\<bar> \<le> c * SA" by (simp add: algebra_simps)
  have "\<bar>p\<bar> \<le> \<bar>P\<bar> + (c - 1) * SP" using assms(4) by linarith
  with assms(5) have p: "\<bar>p\<bar> \<le> c * SP" by (simp add: algebra_simps)
  have "\<bar>a + p\<bar> \<le> \<bar>a\<bar> + \<bar>p\<bar>" by linarith
  with a p have "\<bar>a + p\<bar> \<le> c * SA + c * SP" by linarith
  then have "\<bar>a + p\<bar> \<le> c * (SA + SP)"
    by (simp add: algebra_simps)
  with u have "?u * \<bar>a + p\<bar> \<le> ?u * (c * (SA + SP))"
    by (simp add: mult_left_mono)
  with e have e': "\<bar>a1 - (a + p)\<bar> \<le> ?u * (c * (SA + SP))" by linarith
  have "\<bar>a1 - (A + P)\<bar> \<le> \<bar>a1 - (a + p)\<bar> + \<bar>a - A\<bar> + \<bar>p - P\<bar>"
    by linarith
  also have "\<dots> \<le> ?u * (c * (SA + SP)) + (c - 1) * SA + (c - 1) * SP"
    using e' assms(2,4) by linarith
  also have "\<dots> = (c * (1 + ?u) - 1) * (SA + SP)"
    by (simp add: algebra_simps)
  finally show ?thesis .
qed

lemma mean_sums_fl_error:
  assumes "mean_sums_fl qs (a, b) = Some (a', b')"
    and "\<forall>(x, w) \<in> set qs. w > 0"
    and "\<bar>a - A\<bar> \<le> (c - 1) * SA" and "\<bar>A\<bar> \<le> SA" and "c \<ge> (1 + unit_roundoff)\<^sup>2"
    and "\<bar>b - B\<bar> \<le> (d - 1) * SB" and "\<bar>B\<bar> \<le> SB" and "d \<ge> 1"
  shows "\<bar>a' - (A + sum_list (map (\<lambda>(x, w). x * w) qs))\<bar>
           \<le> (c * (1 + unit_roundoff) ^ length qs - 1) * (SA + sum_list (map (\<lambda>(x, w). \<bar>x\<bar> * w) qs))
       \<and> \<bar>b' - (B + sum_list (map snd qs))\<bar>
           \<le> (d * (1 + unit_roundoff) ^ length qs - 1) * (SB + sum_list (map snd qs))"
  using assms
proof (induction qs arbitrary: a b A SA c B SB d)
  case Nil
  then show ?case by simp
next
  case (Cons q qs)
  let ?u = unit_roundoff
  have u: "?u > 0" by (rule unit_roundoff_pos)
  obtain x w where q: "q = (x, w)" by (cases q)
  from Cons.prems(2) q have w: "w > 0" by simp
  from Cons.prems(1) obtain r p a1 b1 where
    r: "fl x = Some r" and p: "fmul r w = Some p" and a1: "fadd a p = Some a1"
    and b1: "fadd b w = Some b1" and rest: "mean_sums_fl qs (a1, b1) = Some (a', b')"
    unfolding q by (auto simp: bind_eq_Some_conv)
  have u2: "(1 + ?u)\<^sup>2 \<ge> 1" using u by (simp add: one_le_power)
  with Cons.prems(5) have c1: "c \<ge> 1" by linarith
  have perr: "\<bar>p - x * w\<bar> \<le> (c - 1) * (\<bar>x\<bar> * w)"
  proof -
    have "\<bar>p - x * w\<bar> \<le> ((1 + ?u)\<^sup>2 - 1) * (\<bar>x\<bar> * w)"
      using r p w by (rule product_error)
    also have "\<dots> \<le> (c - 1) * (\<bar>x\<bar> * w)"
      using Cons.prems(5) w by (simp add: mult_right_mono)
    finally show ?thesis .
  qed
  have pabs: "\<bar>x * w\<bar> \<le> \<bar>x\<bar> * w" using w by (simp add: abs_mult)
  have A1: "\<bar>a1 - (A + x * w)\<bar> \<le> (c * (1 + ?u) - 1) * (SA + \<bar>x\<bar> * w)"
    using a1 Cons.prems(3,4) perr pabs c1 by (rule accumulate_error)
  have B1: "\<bar>b1 - (B + w)\<bar> \<le> (d * (1 + ?u) - 1) * (SB + w)"
  proof (rule accumulate_error [OF b1 Cons.prems(6,7) _ _ Cons.prems(8)])
    show "\<bar>w - w\<bar> \<le> (d - 1) * w" using w Cons.prems(8) by simp
    show "\<bar>w\<bar> \<le> w" using w by simp
  qed
  have SA': "\<bar>A + x * w\<bar> \<le> SA + \<bar>x\<bar> * w"
    using Cons.prems(4) pabs by linarith
  have SB': "\<bar>B + w\<bar> \<le> SB + w"
    using Cons.prems(7) w by linarith
  have c': "c * (1 + ?u) \<ge> (1 + ?u)\<^sup>2"
  proof -
    have "c * ?u \<ge> 0" using c1 u by simp
    then have "c * (1 + ?u) \<ge> c" by (simp add: algebra_simps)
    with Cons.prems(5) show ?thesis by linarith
  qed
  have d': "d * (1 + ?u) \<ge> 1"
  proof -
    have "d * ?u \<ge> 0" using Cons.prems(8) u by simp
    then have "d * (1 + ?u) \<ge> d" by (simp add: algebra_simps)
    with Cons.prems(8) show ?thesis by linarith
  qed
  from Cons.prems(2) have ws: "\<forall>(x, w) \<in> set qs. w > 0" by simp
  from Cons.IH [OF rest ws A1 SA' c' B1 SB' d']
  show ?case
    unfolding q by (simp add: algebra_simps)
qed

lemma weighted_abs_sum_bound:
  assumes "\<forall>(x, w) \<in> set qs. w > 0 \<and> \<bar>x\<bar> \<le> (R::real)"
  shows "\<bar>sum_list (map (\<lambda>(x, w). x * w) qs)\<bar> \<le> sum_list (map (\<lambda>(x, w). \<bar>x\<bar> * w) qs) \<and>
         sum_list (map (\<lambda>(x, w). \<bar>x\<bar> * w) qs) \<le> R * sum_list (map snd qs)"
  using assms
proof (induction qs)
  case Nil
  show ?case by simp
next
  case (Cons q qs)
  obtain x w where q: "q = (x, w)" by (cases q)
  from Cons.prems q have w: "w > 0" and x: "\<bar>x\<bar> \<le> R" by auto
  from Cons have IH: "\<bar>sum_list (map (\<lambda>(x, w). x * w) qs)\<bar> \<le> sum_list (map (\<lambda>(x, w). \<bar>x\<bar> * w) qs)"
    "sum_list (map (\<lambda>(x, w). \<bar>x\<bar> * w) qs) \<le> R * sum_list (map snd qs)" by auto
  have a: "\<bar>x * w\<bar> = \<bar>x\<bar> * w" using w by (simp add: abs_mult)
  have b: "\<bar>x\<bar> * w \<le> R * w" using x w by (simp add: mult_right_mono)
  from IH a b show ?case
    unfolding q by (simp add: algebra_simps)
qed

lemma weighted_mean_fl_error:
  fixes qs :: "(real \<times> real) list"
  defines "N \<equiv> sum_list (map (\<lambda>(x, w). x * w) qs)"
    and "B \<equiv> sum_list (map snd qs)"
  assumes sums: "mean_sums_fl qs (0, 0) = Some (twr, tw)"
    and quot: "fdiv twr tw = Some v"
    and pos: "\<forall>(x, w) \<in> set qs. w > 0"
    and ne: "qs \<noteq> []"
    and R: "\<forall>(x, w) \<in> set qs. \<bar>x\<bar> \<le> R"
    and small: "(1 + unit_roundoff) ^ length qs < 2"
  shows "\<bar>v - N / B\<bar> \<le> rounding_slack (length qs) * R"
proof -
  let ?u = unit_roundoff
  let ?n = "length qs"
  define g where "g = (1 + ?u) ^ (?n + 2) - 1"
  define h where "h = (1 + ?u) ^ ?n - 1"
  define S where "S = sum_list (map (\<lambda>(x, w). \<bar>x\<bar> * w) qs)"
  have u: "?u > 0" by (rule unit_roundoff_pos)
  have "1 \<le> (1 + ?u) ^ ?n" by (rule one_le_power) (use u in simp)
  then have h0: "h \<ge> 0" unfolding h_def by linarith
  have "1 \<le> (1 + ?u) ^ (?n + 2)" by (rule one_le_power) (use u in simp)
  then have g0: "g \<ge> 0" unfolding g_def by linarith
  have h1: "h < 1" unfolding h_def using small by simp
  have B: "B > 0" unfolding B_def using pos ne by (rule sum_weights_pos)
  from pos R have "\<forall>(x, w) \<in> set qs. w > 0 \<and> \<bar>x\<bar> \<le> R" by auto
  from weighted_abs_sum_bound [OF this]
  have NS: "\<bar>N\<bar> \<le> S" and SR: "S \<le> R * B" unfolding N_def S_def B_def by simp_all
  have S0: "S \<ge> 0" using NS by linarith
  have R0: "R \<ge> 0"
  proof -
    from ne obtain x w where "(x, w) \<in> set qs" by (cases qs) auto
    with R have "\<bar>x\<bar> \<le> R" by auto
    then show ?thesis by linarith
  qed
  have err: "\<bar>twr - (0 + N)\<bar> \<le> ((1 + ?u)\<^sup>2 * (1 + ?u) ^ ?n - 1) * (0 + S) \<and>
             \<bar>tw - (0 + B)\<bar> \<le> (1 * (1 + ?u) ^ ?n - 1) * (0 + B)"
    unfolding N_def S_def B_def
    by (rule mean_sums_fl_error [OF sums pos]) simp_all
  have gpow: "(1 + ?u)\<^sup>2 * (1 + ?u) ^ ?n - 1 = g"
    unfolding g_def by (simp add: power_add power2_eq_square mult.commute)
  from err have E1: "\<bar>twr - N\<bar> \<le> g * S" and E2: "\<bar>tw - B\<bar> \<le> h * B"
    unfolding gpow h_def by simp_all
  from E2 have "tw \<ge> B - h * B" by linarith
  then have twlo: "tw \<ge> (1 - h) * B" by (simp add: algebra_simps)
  have "(1 - h) * B > 0" using h1 B by simp
  with twlo have tw: "tw > 0" by linarith
  define D where "D = twr / tw - N / B"
  have Deq: "D = ((twr - N) * B - N * (tw - B)) / (tw * B)"
    unfolding D_def using tw B by (simp add: field_simps)
  have num: "\<bar>(twr - N) * B - N * (tw - B)\<bar> \<le> (g + h) * R * (B * B)"
  proof -
    have "\<bar>(twr - N) * B - N * (tw - B)\<bar> \<le> \<bar>(twr - N) * B\<bar> + \<bar>N * (tw - B)\<bar>"
      by (rule abs_triangle_ineq4)
    also have "\<dots> = \<bar>twr - N\<bar> * B + \<bar>N\<bar> * \<bar>tw - B\<bar>"
      using B by (simp add: abs_mult)
    also have "\<dots> \<le> (g * S) * B + S * (h * B)"
      using E1 E2 NS B S0 h0 by (intro add_mono mult_mono mult_right_mono) simp_all
    also have "\<dots> = (g + h) * S * B" by (simp add: algebra_simps)
    also have "\<dots> \<le> (g + h) * (R * B) * B"
      using SR g0 h0 B by (intro mult_right_mono mult_left_mono) simp_all
    finally show ?thesis by (simp add: algebra_simps)
  qed
  have den: "(1 - h) * (B * B) \<le> tw * B"
    using twlo B by (simp add: mult_right_mono mult.assoc [symmetric])
  have den0: "(1 - h) * (B * B) > 0" using h1 B by simp
  have Dabs: "\<bar>D\<bar> \<le> (g + h) * R / (1 - h)"
  proof -
    have "\<bar>D\<bar> = \<bar>(twr - N) * B - N * (tw - B)\<bar> / (tw * B)"
      unfolding Deq using tw B by (simp add: abs_mult)
    also have "\<dots> \<le> ((g + h) * R * (B * B)) / ((1 - h) * (B * B))"
      using num den den0 g0 h0 R0 B by (intro frac_le) simp_all
    also have "\<dots> = (g + h) * R / (1 - h)"
      using B by simp
    finally show ?thesis .
  qed
  have M: "\<bar>N / B\<bar> \<le> R"
  proof -
    have "\<bar>N / B\<bar> = \<bar>N\<bar> / B" using B by simp
    also have "\<dots> \<le> (R * B) / B" using NS SR B by (intro divide_right_mono) simp_all
    also have "\<dots> = R" using B by simp
    finally show ?thesis .
  qed
  from quot have q1: "\<bar>v - twr / tw\<bar> \<le> ?u * \<bar>twr / tw\<bar>"
    unfolding fdiv_def by (rule fl_error_u)
  have "\<bar>twr / tw\<bar> \<le> R + \<bar>D\<bar>"
    using M unfolding D_def by linarith
  then have "?u * \<bar>twr / tw\<bar> \<le> ?u * (R + \<bar>D\<bar>)"
    by (rule mult_left_mono) (use u in simp)
  with q1 have "\<bar>v - twr / tw\<bar> \<le> ?u * (R + \<bar>D\<bar>)" by linarith
  then have "\<bar>v - N / B\<bar> \<le> ?u * (R + \<bar>D\<bar>) + \<bar>D\<bar>"
    unfolding D_def by linarith
  also have "\<dots> = ?u * R + (1 + ?u) * \<bar>D\<bar>" by (simp add: algebra_simps)
  also have "\<dots> \<le> ?u * R + (1 + ?u) * ((g + h) * R / (1 - h))"
  proof -
    have "(1 + ?u) * \<bar>D\<bar> \<le> (1 + ?u) * ((g + h) * R / (1 - h))"
      using Dabs by (rule mult_left_mono) (use u in simp)
    then show ?thesis by linarith
  qed
  also have "\<dots> = rounding_slack ?n * R"
    unfolding rounding_slack_def Let_def g_def h_def by (simp add: algebra_simps)
  finally show ?thesis .
qed

subsection \<open>The loop accumulates the returned quotes\<close>

lemma returned_quotes_Nil: "returned_quotes fetch [] = []"
  by (simp add: returned_quotes_def)

lemma returned_quotes_Cons:
  "returned_quotes fetch ((k, info) # rest) =
     (case fetch k of
        Inl e \<Rightarrow> []
      | Inr v \<Rightarrow> (case as_number v of None \<Rightarrow> [] | Some x \<Rightarrow> [(x, weight info)]))
     @ returned_quotes fetch rest"
  by (simp add: returned_quotes_def)

lemma length_returned_quotes: "length (returned_quotes fetch items) \<le> length items"
  by (induction items) (auto simp: returned_quotes_Nil returned_quotes_Cons split: sum.splits option.splits)

lemma returned_quotes_weights:
  assumes "\<forall>(k, info) \<in> set items. weight info > 0"
  shows "\<forall>(x, w) \<in> set (returned_quotes fetch items). w > 0"
  using assms by (auto simp: returned_quotes_def split: sum.splits option.splits)

lemma forex_loop_fl_sums:
  assumes "forex_loop_fl fetch items (a, b) = Returns (a', b')"
  shows "mean_sums_fl (returned_quotes fetch items) (a, b) = Some (a', b')"
  using assms
proof (induction items arbitrary: a b)
  case Nil
  then show ?case by (simp add: returned_quotes_Nil)
next
  case (Cons item items)
  obtain k info where item: "item = (k, info)" by (cases item)
  from Cons.prems obtain rate where rate: "fetch k = Inr rate"
    unfolding item by (cases "fetch k") auto
  show ?case
  proof (cases "rate = PyNone")
    case True
    with Cons.prems rate have "forex_loop_fl fetch items (a, b) = Returns (a', b')"
      unfolding item by simp
    then have "mean_sums_fl (returned_quotes fetch items) (a, b) = Some (a', b')"
      by (rule Cons.IH)
    with True rate show ?thesis
      unfolding item by (simp add: returned_quotes_Cons)
  next
    case False
    with Cons.prems rate obtain x where x: "as_number rate = Some x"
      unfolding item by (cases "as_number rate") auto
    from Cons.prems rate False x obtain a1 b1 where
      step: "Option.bind (fl x) (\<lambda>r.
               Option.bind (fmul r (weight info)) (\<lambda>weighted.
               Option.bind (fadd a weighted) (\<lambda>total_weighted_rate'.
               Option.bind (fadd b (weight info)) (\<lambda>total_weight'.
               Some (total_weighted_rate', total_weight'))))) = Some (a1, b1)"
      and rest: "forex_loop_fl fetch items (a1, b1) = Returns (a', b')"
      unfolding item by (auto split: option.splits)
    from rest have IH: "mean_sums_fl (returned_quotes fetch items) (a1, b1) = Some (a', b')"
      by (rule Cons.IH)
    from step IH rate x show ?thesis
      unfolding item by (auto simp: returned_quotes_Cons bind_eq_Some_conv)
  qed
qed

subsection \<open>The rounded mean and the quotes\<close>

lemma agree_fetch:
  "fetch_forex_rate (float_config PROVIDER_CONFIG) agree_net ''EXCHANGERATE_HOST'' ''USD'' ''EUR'' = Inr (PyNum 1.5)"
  "fetch_forex_rate (float_config PROVIDER_CONFIG) agree_net ''EXCHANGERATE_API'' ''USD'' ''EUR'' = Inr (PyNum 1.5)"
  "fetch_forex_rate (float_config PROVIDER_CONFIG) agree_net ''OPEN_EXCHANGE_RATES'' ''USD'' ''EUR'' = Inr (PyNum 1.5)"
  by (simp_all add: fetch_forex_rate_def fetch_forex_rate_try_def PROVIDER_CONFIG_def
        float_config_def agree_net_def and_then_simps requests_get_def response_json_def
        endswith_def)

text \<open>
  C9, as stated, at three agreeing quotes: with the configured weights 1.0, 0.8 and 0.9
  and every provider quoting 1.5 for USD to EUR, the code returns the float above 1.5
  (\<^verbatim>\<open>1.5000000000000002\<close>), which is greater than the largest quote.
\<close>

theorem rounded_mean_above_quotes:
  "fetch_forex_rate (float_config PROVIDER_CONFIG) agree_net ''EXCHANGERATE_HOST'' ''USD'' ''EUR'' = Inr (PyNum 1.5) \<and>
   fetch_forex_rate (float_config PROVIDER_CONFIG) agree_net ''EXCHANGERATE_API'' ''USD'' ''EUR'' = Inr (PyNum 1.5) \<and>
   fetch_forex_rate (float_config PROVIDER_CONFIG) agree_net ''OPEN_EXCHANGE_RATES'' ''USD'' ''EUR'' = Inr (PyNum 1.5) \<and>
   get_advanced_forex_rate_fl
     (\<lambda>k. fetch_forex_rate (float_config PROVIDER_CONFIG) agree_net k ''USD'' ''EUR'')
     (float_config PROVIDER_CONFIG) = Returns (Some (6755399441055745 / 4503599627370496)) \<and>
   (6755399441055745 / 4503599627370496 :: real) > 1.5"
proof -
  have "get_advanced_forex_rate_fl
          (\<lambda>k. fetch_forex_rate (float_config PROVIDER_CONFIG) agree_net k ''USD'' ''EUR'')
          [(''EXCHANGERATE_HOST'',
              \<lparr>url = ''https://api.exchangerate.host/latest'', weight = round_double 1.0\<rparr>),
           (''EXCHANGERATE_API'',
              \<lparr>url = ''https://v6.exchangerate-api.com/v6/YOUR_API_KEY/latest/'', weight = round_double 0.8\<rparr>),
           (''OPEN_EXCHANGE_RATES'',
              \<lparr>url = ''https://openexchangerates.org/api/latest.json?app_id=YOUR_APP_ID'', weight = round_double 0.9\<rparr>)]
        = Returns (Some (6755399441055745 / 4503599627370496))"
    by (simp add: get_advanced_forex_rate_fl_def agree_fetch fadd_def fmul_def fdiv_def fl_def
          round_double_def expo.simps round_even_def)
  then have "get_advanced_forex_rate_fl
          (\<lambda>k. fetch_forex_rate (float_config PROVIDER_CONFIG) agree_net k ''USD'' ''EUR'')
          (float_config PROVIDER_CONFIG) = Returns (Some (6755399441055745 / 4503599627370496))"
    by (subst (2) float_config_def) (simp add: PROVIDER_CONFIG_def)
  with agree_fetch show ?thesis by simp
qed

text \<open>
  C9, amended: whenever the aggregation returns a value, with positive weights and fewer
  than \<open>2^52\<close> providers, the value is no smaller than the least returned quote and no
  larger than the greatest one up to the rounding slack times the largest magnitude of a
  returned quote.
\<close>

theorem weighted_mean_near_quotes:
  assumes "get_advanced_forex_rate_fl fetch cfg = Returns (Some v)"
    and "\<forall>(k, info) \<in> set cfg. weight info > 0"
    and "length cfg < 2 ^ 52"
  shows "Min (fst ` set (returned_quotes fetch cfg))
           - rounding_slack (length (returned_quotes fetch cfg))
             * Max ((\<lambda>(x, w). \<bar>x\<bar>) ` set (returned_quotes fetch cfg)) \<le> v
       \<and> v \<le> Max (fst ` set (returned_quotes fetch cfg))
           + rounding_slack (length (returned_quotes fetch cfg))
             * Max ((\<lambda>(x, w). \<bar>x\<bar>) ` set (returned_quotes fetch cfg))"
proof -
  let ?qs = "returned_quotes fetch cfg"
  let ?R = "Max ((\<lambda>(x, w). \<bar>x\<bar>) ` set ?qs)"
  from assms(1) obtain twr tw where
    loop: "forex_loop_fl fetch cfg (0, 0) = Returns (twr, tw)"
    and tw: "tw > 0" and quot: "fdiv twr tw = Some v"
    unfolding get_advanced_forex_rate_fl_def
    by (auto split: outcome.splits if_splits option.splits)
  from loop have sums: "mean_sums_fl ?qs (0, 0) = Some (twr, tw)"
    by (rule forex_loop_fl_sums)
  have ne: "?qs \<noteq> []"
  proof
    assume "?qs = []"
    with sums tw show False by simp
  qed
  from assms(2) have pos: "\<forall>(x, w) \<in> set ?qs. w > 0"
    by (rule returned_quotes_weights)
  have R: "\<forall>(x, w) \<in> set ?qs. \<bar>x\<bar> \<le> ?R"
    by (auto intro!: Max_ge simp: rev_image_eqI)
  have "length ?qs \<le> length cfg" by (rule length_returned_quotes)
  with assms(3) have "length ?qs < 2 ^ 52" by simp
  then have small: "(1 + unit_roundoff) ^ length ?qs < 2"
    by (rule roundoff_power_small)
  have near: "\<bar>v - sum_list (map (\<lambda>(x, w). x * w) ?qs) / sum_list (map snd ?qs)\<bar>
                \<le> rounding_slack (length ?qs) * ?R"
    using sums quot pos ne R small by (rule weighted_mean_fl_error)
  have between: "Min (fst ` set ?qs) \<le> sum_list (map (\<lambda>(x, w). x * w) ?qs) / sum_list (map snd ?qs)
               \<and> sum_list (map (\<lambda>(x, w). x * w) ?qs) / sum_list (map snd ?qs) \<le> Max (fst ` set ?qs)"
    using pos ne by (rule weighted_mean_between)
  from near between show ?thesis by linarith
qed

lemma scenario2_fetch_float:
  "fetch_forex_rate (float_config scenario2_config) scenario2_net ''EXCHANGERATE_HOST'' ''USD'' ''EUR'' = Inr (PyNum 1.10)"
  "fetch_forex_rate (float_config scenario2_config) scenario2_net ''EXCHANGERATE_API'' ''USD'' ''EUR'' = Inr (PyNum 1.12)"
  "fetch_forex_rate (float_config scenario2_config) scenario2_net ''OPEN_EXCHANGE_RATES'' ''USD'' ''EUR'' = Inr PyNone"
  by (simp_all add: fetch_forex_rate_def fetch_forex_rate_try_def scenario2_config_def
        float_config_def scenario2_net_def and_then_simps requests_get_def response_json_def
        endswith_def)

theorem weighted_mean_near_quotes_scenario2:
  "get_advanced_forex_rate_fl
     (\<lambda>k. fetch_forex_rate (float_config scenario2_config) scenario2_net k ''USD'' ''EUR'')
     (float_config scenario2_config) = Returns (Some (4983983587623349 / 4503599627370496)) \<and>
   1.10 - rounding_slack 2 * 1.12 \<le> (4983983587623349 / 4503599627370496 :: real) \<and>
   (4983983587623349 / 4503599627370496 :: real) \<le> 1.12 + rounding_slack 2 * 1.12"
proof -
  let ?fetch = "\<lambda>k. fetch_forex_rate (float_config scenario2_config) scenario2_net k ''USD'' ''EUR''"
  let ?items = "[(''EXCHANGERATE_HOST'', \<lparr>url = ''https://a.test/latest'', weight = round_double 1.0\<rparr>),
                 (''EXCHANGERATE_API'', \<lparr>url = ''https://b.test/latest'', weight = round_double 0.5\<rparr>),
                 (''OPEN_EXCHANGE_RATES'', \<lparr>url = ''https://c.test/latest.json'', weight = round_double 0.9\<rparr>)]"
  have cfg: "float_config scenario2_config = ?items"
    by (simp add: float_config_def scenario2_config_def)
  have "get_advanced_forex_rate_fl ?fetch ?items = Returns (Some (4983983587623349 / 4503599627370496))"
    by (simp add: get_advanced_forex_rate_fl_def scenario2_fetch_float fadd_def fmul_def fdiv_def
          fl_def round_double_def expo.simps round_even_def)
  then have run: "get_advanced_forex_rate_fl ?fetch (float_config scenario2_config)
                    = Returns (Some (4983983587623349 / 4503599627370496))"
    by (subst (2) cfg)
  have w: "\<forall>(k, info) \<in> set (float_config scenario2_config). weight info > 0"
    unfolding cfg by (simp add: round_double_def expo.simps round_even_def)
  have len: "length (float_config scenario2_config) < 2 ^ 52"
    unfolding cfg by simp
  have "returned_quotes ?fetch ?items = [(1.10, round_double 1.0), (1.12, round_double 0.5)]"
    by (simp add: returned_quotes_def scenario2_fetch_float)
  then have q: "returned_quotes ?fetch (float_config scenario2_config)
                  = [(1.10, round_double 1.0), (1.12, round_double 0.5)]"
    by (subst (2) cfg)
  have two: "length [(1.10 :: real, round_double 1.0), (1.12, round_double 0.5)] = 2"
    by simp
  from weighted_mean_near_quotes [OF run w len] run show ?thesis
    unfolding q two by simp
qed

subsection \<open>A rate that is not a number\<close>

lemma string_rate_fetch:
  "fetch_forex_rate scenario2_config string_rate_net ''EXCHANGERATE_HOST'' ''USD'' ''EUR'' = Inr (PyNum 1.10)"
  "fetch_forex_rate scenario2_config string_rate_net ''EXCHANGERATE_API'' ''USD'' ''EUR'' = Inr (PyStr ''1.12'')"
  "fetch_forex_rate scenario2_config string_rate_net ''OPEN_EXCHANGE_RATES'' ''USD'' ''EUR'' = Inr PyNone"
  by (simp_all add: fetch_forex_rate_def fetch_forex_rate_try_def scenario2_config_def
        string_rate_net_def and_then_simps requests_get_def response_json_def endswith_def)

lemma malformed_fetch:
  "fetch_forex_rate PROVIDER_CONFIG malformed_net ''EXCHANGERATE_HOST'' ''USD'' ''EUR'' = Inr (PyStr ''0.92'')"
  "fetch_forex_rate PROVIDER_CONFIG malformed_net ''EXCHANGERATE_API'' ''USD'' ''EUR'' = Inr (PyStr ''0.92'')"
  "fetch_forex_rate PROVIDER_CONFIG malformed_net ''OPEN_EXCHANGE_RATES'' ''USD'' ''EUR'' = Inr (PyStr ''0.92'')"
  by (simp_all add: fetch_forex_rate_def fetch_forex_rate_try_def PROVIDER_CONFIG_def
        malformed_net_def and_then_simps requests_get_def response_json_def endswith_def)

text \<open>
  C1, at a payload whose rate is a string: in scenario 2 with the second provider sending
  \<^verbatim>\<open>"EUR": "1.12"\<close>, the first provider returns the rate 1.10, the second fetch returns
  the string, the third returns \<^verbatim>\<open>None\<close>, and \<^verbatim>\<open>get_advanced_forex_rate\<close> raises
  \<^verbatim>\<open>TypeError\<close> instead of returning a weighted mean, with exact and with binary64
  arithmetic.
\<close>

theorem string_rate_aborts_mean:
  "fetch_forex_rate scenario2_config string_rate_net ''EXCHANGERATE_HOST'' ''USD'' ''EUR'' = Inr (PyNum 1.10) \<and>
   fetch_forex_rate scenario2_config string_rate_net ''EXCHANGERATE_API'' ''USD'' ''EUR'' = Inr (PyStr ''1.12'') \<and>
   fetch_forex_rate scenario2_config string_rate_net ''OPEN_EXCHANGE_RATES'' ''USD'' ''EUR'' = Inr PyNone \<and>
   get_advanced_forex_rate scenario2_config string_rate_net ''USD'' ''EUR'' = Inl TypeError \<and>
   get_advanced_forex_rate_fl
     (\<lambda>k. fetch_forex_rate scenario2_config string_rate_net k ''USD'' ''EUR'')
     (float_config scenario2_config) = Raises TypeError"
proof -
  have "forex_loop scenario2_config string_rate_net ''USD'' ''EUR''
          [(''EXCHANGERATE_HOST'', \<lparr>url = ''https://a.test/latest'', weight = 1.0\<rparr>),
           (''EXCHANGERATE_API'', \<lparr>url = ''https://b.test/latest'', weight = 0.5\<rparr>),
           (''OPEN_EXCHANGE_RATES'', \<lparr>url = ''https://c.test/latest.json'', weight = 0.9\<rparr>)] (0, 0)
        = Inl TypeError"
    by (simp add: string_rate_fetch and_then_simps mul_float_def)
  then have "forex_loop scenario2_config string_rate_net ''USD'' ''EUR'' scenario2_config (0, 0)
               = Inl TypeError"
    by (subst (2) scenario2_config_def)
  then have exact: "get_advanced_forex_rate scenario2_config string_rate_net ''USD'' ''EUR'' = Inl TypeError"
    by (simp add: get_advanced_forex_rate_def and_then_simps)
  have float: "get_advanced_forex_rate_fl
                 (\<lambda>k. fetch_forex_rate scenario2_config string_rate_net k ''USD'' ''EUR'')
                 (float_config scenario2_config) = Raises TypeError"
    by (simp add: get_advanced_forex_rate_fl_def float_config_def
          scenario2_config_def [THEN arg_cong [where f = "map f" for f]] string_rate_fetch
          fadd_def fmul_def fdiv_def fl_def round_double_def expo.simps round_even_def)
  from string_rate_fetch exact float show ?thesis by simp
qed

text \<open>
  C4, at malformed payloads: when every configured provider sends the rate as the string
  \<^verbatim>\<open>"0.92"\<close>, each fetch returns the string (no exception is raised inside the fetch),
  and \<^verbatim>\<open>get_advanced_forex_rate\<close> raises \<^verbatim>\<open>TypeError\<close> instead of returning \<^verbatim>\<open>None\<close>,
  with exact and with binary64 arithmetic.
\<close>

theorem malformed_payload_aborts:
  "fetch_forex_rate PROVIDER_CONFIG malformed_net ''EXCHANGERATE_HOST'' ''USD'' ''EUR'' = Inr (PyStr ''0.92'') \<and>
   fetch_forex_rate PROVIDER_CONFIG malformed_net ''EXCHANGERATE_API'' ''USD'' ''EUR'' = Inr (PyStr ''0.92'') \<and>
   fetch_forex_rate PROVIDER_CONFIG malformed_net ''OPEN_EXCHANGE_RATES'' ''USD'' ''EUR'' = Inr (PyStr ''0.92'') \<and>
   get_advanced_forex_rate PROVIDER_CONFIG malformed_net ''USD'' ''EUR'' = Inl TypeError \<and>
   get_advanced_forex_rate_fl
     (\<lambda>k. fetch_forex_rate PROVIDER_CONFIG malformed_net k ''USD'' ''EUR'')
     (float_config PROVIDER_CONFIG) = Raises TypeError"
proof -
  have "forex_loop PROVIDER_CONFIG malformed_net ''USD'' ''EUR''
          [(''EXCHANGERATE_HOST'',
              \<lparr>url = ''https://api.exchangerate.host/latest'', weight = 1.0\<rparr>),
           (''EXCHANGERATE_API'',
              \<lparr>url = ''https://v6.exchangerate-api.com/v6/YOUR_API_KEY/latest/'', weight = 0.8\<rparr>),
           (''OPEN_EXCHANGE_RATES'',
              \<lparr>url = ''https://openexchangerates.org/api/latest.json?app_id=YOUR_APP_ID'', weight = 0.9\<rparr>)] (0, 0)
        = Inl TypeError"
    by (simp add: malformed_fetch and_then_simps mul_float_def)
  then have "forex_loop PROVIDER_CONFIG malformed_net ''USD'' ''EUR'' PROVIDER_CONFIG (0, 0)
               = Inl TypeError"
    by (subst (2) PROVIDER_CONFIG_def)
  then have exact: "get_advanced_forex_rate PROVIDER_CONFIG malformed_net ''USD'' ''EUR'' = Inl TypeError"
    by (simp add: get_advanced_forex_rate_def and_then_simps)
  have float: "get_advanced_forex_rate_fl
                 (\<lambda>k. fetch_forex_rate PROVIDER_CONFIG malformed_net k ''USD'' ''EUR'')
                 (float_config PROVIDER_CONFIG) = Raises TypeError"
    by (simp add: get_advanced_forex_rate_fl_def float_config_def
          PROVIDER_CONFIG_def [THEN arg_cong [where f = "map f" for f]] malformed_fetch
          fadd_def fmul_def fdiv_def fl_def round_double_def expo.simps round_even_def)
  from malformed_fetch exact float show ?thesis by simp
qed

subsection \<open>Alert evaluation\<close>

text \<open>
  With thresholds other than zero the rule is evaluated as written: the upper breach is
  \<open>current_price \<ge> upper\<close>, the lower breach \<open>current_price \<le> lower\<close>, both inclusive and
  independent of each other, and a rule with \<open>lower > upper\<close> gives both lines.
\<close>

lemma evaluate_alert_nonzero:
  assumes "upper_threshold a \<noteq> Some 0" and "lower_threshold a \<noteq> Some 0"
  shows "evaluate_alert symbol_name current_price a =
     ((\<exists>u. upper_threshold a = Some u \<and> current_price \<ge> u) \<or>
      (\<exists>l. lower_threshold a = Some l \<and> current_price \<le> l),
      (case upper_threshold a of
         None \<Rightarrow> []
       | Some u \<Rightarrow> if current_price \<ge> u then [Above symbol_name u current_price] else []) @
      (case lower_threshold a of
         None \<Rightarrow> []
       | Some l \<Rightarrow> if current_price \<le> l then [Below symbol_name l current_price] else []))"
  using assms by (auto simp: evaluate_alert_def split: option.splits)

lemma evaluate_alert_both:
  assumes "upper_threshold a = Some u" and "lower_threshold a = Some l"
    and "u \<noteq> 0" and "l \<noteq> 0" and "u \<le> current_price" and "current_price \<le> l"
  shows "evaluate_alert symbol_name current_price a =
           (True, [Above symbol_name u current_price, Below symbol_name l current_price])"
  using assms by (simp add: evaluate_alert_def)

text \<open>Scenario 4 of the specification, an inactive rule, and a rule with lower above upper.\<close>

lemma scenario4:
  "fst (check_and_trigger_alerts (alert_session (Some 200) (Some 100) True) (\<lambda>m. True) ''AAPL'' 100)
     = [\<lparr>to_email = ''demo@example.com'', subject = ''Price Alert for AAPL'',
          body = [Below ''AAPL'' 100 100]\<rparr>]"
  "fst (check_and_trigger_alerts (alert_session (Some 200) (Some 100) True) (\<lambda>m. True) ''AAPL'' 150) = []"
  "fst (check_and_trigger_alerts (alert_session (Some 200) (Some 100) False) (\<lambda>m. True) ''AAPL'' 250) = []"
  "fst (check_and_trigger_alerts (alert_session (Some 100) (Some 200) True) (\<lambda>m. True) ''AAPL'' 150)
     = [\<lparr>to_email = ''demo@example.com'', subject = ''Price Alert for AAPL'',
          body = [Above ''AAPL'' 100 150, Below ''AAPL'' 200 150]\<rparr>]"
  by (simp_all add: check_and_trigger_alerts_def alert_session_def evaluate_alert_def
      alert_user_email_def send_email_alert_def)

text \<open>
  C10. With a symbol name that no row of the symbol table has,
  \<open>check_and_trigger_alerts\<close> returns at once: no message is sent and nothing is raised,
  for every current price and every mail server.
\<close>

theorem unknown_symbol_no_alerts:
  assumes "\<forall>y \<in> set (symbols s). name y \<noteq> symbol_name"
  shows "check_and_trigger_alerts s server symbol_name current_price = ([], None)"
proof -
  from assms have "find (\<lambda>y. name y = symbol_name) (symbols s) = None"
    by (simp add: find_None_iff)
  then show ?thesis
    by (simp add: check_and_trigger_alerts_def)
qed

theorem unknown_symbol_no_alerts_msft:
  "check_and_trigger_alerts (alert_session (Some 200) (Some 100) True) (\<lambda>m. True) ''MSFT'' 250
     = ([], None) \<and>
   check_and_trigger_alerts (alert_session (Some 200) (Some 100) True) (\<lambda>m. True) ''AAPL'' 250
     = ([\<lparr>to_email = ''demo@example.com'', subject = ''Price Alert for AAPL'',
           body = [Above ''AAPL'' 200 250]\<rparr>], None)"
proof -
  have "\<forall>y \<in> set (symbols (alert_session (Some 200) (Some 100) True)). name y \<noteq> ''MSFT''"
    by (simp add: alert_session_def)
  from unknown_symbol_no_alerts [OF this, of "\<lambda>m. True" 250]
  show ?thesis
    by (simp add: check_and_trigger_alerts_def alert_session_def evaluate_alert_def
        alert_user_email_def send_email_alert_def)
qed

text \<open>
  C2, at a threshold equal to 0. An active rule on AAPL has upper threshold 0 and no lower
  threshold; the current price is 5, so \<open>current_price \<ge> upper\<close> holds. The code takes the
  threshold's truth value first, 0.0 is false, and no trigger is emitted. Likewise for a
  lower threshold 0 and the current price 0.
\<close>

theorem zero_upper_threshold_never_fires:
  "alerts (alert_session (Some 0) None True) =
     [\<lparr>alert_id = 1, alert_user_id = 1, alert_symbol_id = 1,
       upper_threshold = Some 0, lower_threshold = None, active = True\<rparr>] \<and>
   (5::real) \<ge> 0 \<and>
   check_and_trigger_alerts (alert_session (Some 0) None True) (\<lambda>m. True) ''AAPL'' 5 = ([], None) \<and>
   (0::real) \<le> 0 \<and>
   check_and_trigger_alerts (alert_session None (Some 0) True) (\<lambda>m. True) ''AAPL'' 0 = ([], None)"
  by (simp add: check_and_trigger_alerts_def alert_session_def evaluate_alert_def)

text \<open>
  C8, at an upper threshold equal to 0. An active rule on AAPL has upper threshold 0 and
  lower threshold 10, and the current price 5 satisfies both comparisons. One message is
  sent, with the lower-breach line only.
\<close>

theorem zero_upper_threshold_single_trigger:
  "check_and_trigger_alerts (alert_session (Some 0) (Some 10) True) (\<lambda>m. True) ''AAPL'' 5 =
     ([\<lparr>to_email = ''demo@example.com'', subject = ''Price Alert for AAPL'',
         body = [Below ''AAPL'' 10 5]\<rparr>], None)"
  by (simp add: check_and_trigger_alerts_def alert_session_def evaluate_alert_def
      alert_user_email_def send_email_alert_def)

end
